theory Spec2Isabelle
  imports Main "HOL-Library.AList"
begin

section \<open>Health system types (types.ts)\<close>

text \<open>
  The string-literal unions of \<^verbatim>\<open>types.ts\<close> are datatypes, the interfaces are records.
  JavaScript numbers hold times (\<^verbatim>\<open>Date.now()\<close>, milliseconds) and counts; both are
  integers far below \<open>2^53\<close>, so times are \<open>int\<close> and counts are \<open>nat\<close>.
  \<^verbatim>\<open>Date.now()\<close> is an input of every function that reads the clock.
\<close>

datatype HealthEventCategory = CatCritical | CatWarning | CatInfo

datatype HealthEventType =
    agent_error | process_exit | renderer_crash | renderer_unresponsive
  | network_error | config_change | recovery_success | startup_check

datatype jsvalue = JNull | JBool bool | JNum int | JStr string

record HealthEvent =
  ev_type :: HealthEventType
  ev_category :: HealthEventCategory
  ev_timestamp :: int
  ev_source :: string
  ev_message :: string
  ev_data :: "(string \<times> jsvalue) list option"

section \<open>Event listener (health-checker/event-listener.ts)\<close>

text \<open>
  The module state: the recent-events array and the error-counter \<^verbatim>\<open>Map\<close>. A JavaScript
  \<^verbatim>\<open>Map\<close> keeps insertion order and has one entry per key: it is an association list
  updated in place by \<open>AList.update\<close> (which appends a new key at the end).

  The registered handlers are client closures. They cannot reach the two private
  containers except through the exported functions, and every exception they raise is
  caught by \<^verbatim>\<open>emitHealthEvent\<close>. A handler is therefore a function from the event and
  the module state to the module state.

  Registration (\<^verbatim>\<open>onHealthEvent\<close> and the unsubscribe closure it returns) is not embedded.
  The list \<open>handlers\<close> given to \<^verbatim>\<open>emitHealthEvent\<close> is the list of handlers that the
  fan-out of this event calls, in the order of the calls. The \<^verbatim>\<open>for ... of\<close> loop walks
  the live array by index, so when a handler subscribes or unsubscribes during the
  fan-out (an unsubscribing handler makes the loop skip its successor) the handlers
  called are not the array as it was before; whichever they are, they are this list.
\<close>

record ErrorCounter =
  count :: nat
  lastTime :: int

record listener_state =
  recentEvents :: "HealthEvent list"
  errorCounters :: "(string \<times> ErrorCounter) list"

type_synonym HealthEventHandler = "HealthEvent \<Rightarrow> listener_state \<Rightarrow> listener_state"

definition MAX_RECENT_EVENTS :: nat where
  "MAX_RECENT_EVENTS = 50"

definition COUNTER_RESET_MS :: int where
  "COUNTER_RESET_MS = 60000"

definition listener_init :: listener_state where
  "listener_init = \<lparr>recentEvents = [], errorCounters = []\<rparr>"

text \<open>\<^verbatim>\<open>recentEvents.unshift(event); if (recentEvents.length > MAX) recentEvents.pop()\<close>\<close>

definition push_recent :: "HealthEvent \<Rightarrow> HealthEvent list \<Rightarrow> HealthEvent list" where
  "push_recent event evs =
     (let evs1 = event # evs
      in if length evs1 > MAX_RECENT_EVENTS then butlast evs1 else evs1)"

text \<open>
  The \<^verbatim>\<open>for (const handler of eventHandlers) try { handler(event) } catch {}\<close> loop, over
  the handlers it calls.
\<close>

fun notify :: "HealthEventHandler list \<Rightarrow> HealthEvent \<Rightarrow> listener_state \<Rightarrow> listener_state" where
  "notify [] event s = s"
| "notify (handler # handlers) event s = notify handlers event (handler event s)"

definition emitHealthEvent ::
  "HealthEventHandler list \<Rightarrow> int \<Rightarrow> HealthEventType \<Rightarrow> HealthEventCategory \<Rightarrow> string \<Rightarrow> string
     \<Rightarrow> (string \<times> jsvalue) list option \<Rightarrow> listener_state \<Rightarrow> listener_state" where
  "emitHealthEvent handlers now type category source message data s =
     (let event = \<lparr>ev_type = type, ev_category = category, ev_timestamp = now,
                    ev_source = source, ev_message = message, ev_data = data\<rparr>;
          s1 = s\<lparr>recentEvents := push_recent event (recentEvents s)\<rparr>
      in notify handlers event s1)"

definition trackError :: "string \<Rightarrow> int \<Rightarrow> listener_state \<Rightarrow> nat \<times> listener_state" where
  "trackError source now s =
     (case map_of (errorCounters s) source of
        Some counter \<Rightarrow>
          (let counter1 =
                 (if now - lastTime counter > COUNTER_RESET_MS
                  then counter\<lparr>count := 1, lastTime := now\<rparr>
                  else counter\<lparr>count := count counter + 1, lastTime := now\<rparr>)
           in (count counter1,
               s\<lparr>errorCounters := AList.update source counter1 (errorCounters s)\<rparr>))
      | None \<Rightarrow>
          (1, s\<lparr>errorCounters :=
                   AList.update source \<lparr>count = 1, lastTime = now\<rparr> (errorCounters s)\<rparr>))"

definition resetErrorCounter :: "string \<Rightarrow> listener_state \<Rightarrow> listener_state" where
  "resetErrorCounter source s = s\<lparr>errorCounters := AList.delete source (errorCounters s)\<rparr>"

definition getErrorCount :: "string \<Rightarrow> listener_state \<Rightarrow> nat" where
  "getErrorCount source s =
     (case map_of (errorCounters s) source of Some counter \<Rightarrow> count counter | None \<Rightarrow> 0)"

definition getTotalErrorCount :: "listener_state \<Rightarrow> nat" where
  "getTotalErrorCount s = fold (\<lambda>kv total. total + count (snd kv)) (errorCounters s) 0"

definition getRecentEvents :: "listener_state \<Rightarrow> HealthEvent list" where
  "getRecentEvents s = recentEvents s"

definition clearRecentEvents :: "listener_state \<Rightarrow> listener_state" where
  "clearRecentEvents s = s\<lparr>recentEvents := []\<rparr>"

definition emitRecoverySuccess ::
  "HealthEventHandler list \<Rightarrow> int \<Rightarrow> string \<Rightarrow> string \<Rightarrow> listener_state \<Rightarrow> listener_state" where
  "emitRecoverySuccess handlers now strategyId message s =
     (let s1 = emitHealthEvent handlers now recovery_success CatInfo strategyId message None s
      in s1\<lparr>errorCounters := []\<rparr>)"

section \<open>Recovery strategies (recovery-manager/strategies.ts)\<close>

datatype RecoveryStrategyId = S1 | S2 | S3 | S4

record RecoveryStrategy =
  st_id :: RecoveryStrategyId
  st_name :: string
  st_description :: string
  st_trigger :: string
  st_actions :: "string list"
  st_requiresConsent :: bool

text \<open>The catalog \<^verbatim>\<open>Record<RecoveryStrategyId, RecoveryStrategy>\<close>, indexed by the id.\<close>

fun RECOVERY_STRATEGIES :: "RecoveryStrategyId \<Rightarrow> RecoveryStrategy" where
  "RECOVERY_STRATEGIES S1 =
     \<lparr>st_id = S1, st_name = ''Restart Single Process'',
      st_description = ''Kills and recreates a single unhealthy process'',
      st_trigger = ''Single process unhealthy'',
      st_actions = [''Kill the unhealthy process'', ''Wait for process to terminate'',
                    ''Process will be recreated on next use''],
      st_requiresConsent = False\<rparr>"
| "RECOVERY_STRATEGIES S2 =
     \<lparr>st_id = S2, st_name = ''Reset Agent Engine'',
      st_description = ''Kills all V2 sessions and restarts the OpenAI Router'',
      st_trigger = ''3+ consecutive agent errors'',
      st_actions = [''Close all active V2 sessions'', ''Kill all SDK CLI processes'',
                    ''Restart OpenAI compat router (if active)'', ''Clear agent error counters''],
      st_requiresConsent = False\<rparr>"
| "RECOVERY_STRATEGIES S3 =
     \<lparr>st_id = S3, st_name = ''Restart Application'',
      st_description = ''Completely restarts the Halo application'',
      st_trigger = ''5+ consecutive errors'',
      st_actions = [''Save current state (if possible)'', ''Close all windows and processes'',
                    ''Relaunch application''],
      st_requiresConsent = True\<rparr>"
| "RECOVERY_STRATEGIES S4 =
     \<lparr>st_id = S4, st_name = ''Factory Reset'',
      st_description = ''Clears all caches and resets configuration to defaults'',
      st_trigger = ''Manual trigger only'',
      st_actions = [''Clear all cached data'', ''Reset configuration to defaults'',
                    ''Clear conversation index (preserves data)'', ''Restart application''],
      st_requiresConsent = True\<rparr>"

definition AGENT_RESET :: int where
  "AGENT_RESET = 3"

definition APP_RESTART :: int where
  "APP_RESTART = 5"

definition getStrategy :: "RecoveryStrategyId \<Rightarrow> RecoveryStrategy" where
  "getStrategy sid = RECOVERY_STRATEGIES sid"

definition requiresConsent :: "RecoveryStrategyId \<Rightarrow> bool" where
  "requiresConsent strategyId = st_requiresConsent (RECOVERY_STRATEGIES strategyId)"

text \<open>\<^verbatim>\<open>String.prototype.startsWith\<close> and \<^verbatim>\<open>String.prototype.includes\<close>.\<close>

fun startsWith :: "string \<Rightarrow> string \<Rightarrow> bool" where
  "startsWith s [] = True"
| "startsWith [] (c # cs) = False"
| "startsWith (d # ds) (c # cs) = (d = c \<and> startsWith ds cs)"

fun includes_str :: "string \<Rightarrow> string \<Rightarrow> bool" where
  "includes_str [] sub = startsWith [] sub"
| "includes_str (d # ds) sub = (startsWith (d # ds) sub \<or> includes_str ds sub)"

definition selectRecoveryStrategy :: "int \<Rightarrow> string \<Rightarrow> RecoveryStrategyId option" where
  "selectRecoveryStrategy errorCount source =
     (if errorCount \<ge> AGENT_RESET \<and> errorCount < APP_RESTART
         \<and> (includes_str source ''agent'' \<or> includes_str source ''session'')
      then Some S2
      else if errorCount \<ge> APP_RESTART then Some S3
      else None)"

section \<open>Process registry (process-guardian/registry.ts)\<close>

datatype ProcessType = V2Session | Tunnel | OpenAIRouter | HttpServer

record ProcessEntry =
  pe_id :: string
  pe_pid :: "int option"
  pe_type :: ProcessType
  pe_instanceId :: string
  pe_startedAt :: int
  pe_lastHeartbeat :: int

record HealthRegistry =
  version :: nat
  instanceId :: string
  reg_previousInstanceId :: "string option"
  startedAt :: int
  lastCleanExit :: bool
  processes :: "ProcessEntry list"

text \<open>
  The data directory and the registry file in it. The file is missing, or reading or
  parsing it throws, or it holds a registry as this module, its only writer, serialises
  it. Writing needs the directory and may fail for reasons outside the program: each
  operation that writes takes the outcome of its \<^verbatim>\<open>writeFileSync\<close> as an input, and
  \<^verbatim>\<open>markInstanceStart\<close> takes the outcome \<open>mkdirOk\<close> of \<^verbatim>\<open>mkdirSync\<close>.

  \<^verbatim>\<open>writeFileSync\<close> opens the file with flag \<^verbatim>\<open>w\<close>, which creates or truncates it, and
  then writes. It succeeds (\<open>Written\<close>), or it throws before the file is opened and the
  file is as before (\<open>NotOpened\<close>), or it throws after the open and leaves an empty or
  partial file (\<open>Truncated\<close>). Such a file is no JSON text (the object written is
  closed by its last character), so reading it throws.
\<close>

datatype registry_file = Absent | Unreadable | Stored HealthRegistry

datatype disk = NoDir | Dir registry_file

datatype write_outcome = Written | NotOpened | Truncated

datatype registry_error = MkdirFailed

record registry_state =
  currentInstanceId :: string
  previousInstanceId :: "string option"
  registryCache :: "HealthRegistry option"
  fs :: disk

definition registry_init :: "disk \<Rightarrow> registry_state" where
  "registry_init d =
     \<lparr>currentInstanceId = [], previousInstanceId = None, registryCache = None, fs = d\<rparr>"

text \<open>
  \<^verbatim>\<open>if (existsSync(path)) JSON.parse(readFileSync(path, 'utf-8'))\<close>: the registry read,
  \<open>None\<close> when there is no file, \<open>Inl ()\<close> when reading or parsing throws.
\<close>

definition read_registry :: "disk \<Rightarrow> unit + HealthRegistry option" where
  "read_registry d =
     (case d of
        NoDir \<Rightarrow> Inr None
      | Dir Absent \<Rightarrow> Inr None
      | Dir Unreadable \<Rightarrow> Inl ()
      | Dir (Stored r) \<Rightarrow> Inr (Some r))"

text \<open>
  \<^verbatim>\<open>writeFileSync(path, JSON.stringify(registry, null, 2))\<close>: whether it returned, and
  the disk after it. Without the directory the open fails.
\<close>

definition write_registry :: "write_outcome \<Rightarrow> HealthRegistry \<Rightarrow> disk \<Rightarrow> bool \<times> disk" where
  "write_registry outcome registry d =
     (case d of
        NoDir \<Rightarrow> (False, NoDir)
      | Dir f \<Rightarrow>
          (case outcome of
             Written \<Rightarrow> (True, Dir (Stored registry))
           | NotOpened \<Rightarrow> (False, Dir f)
           | Truncated \<Rightarrow> (False, Dir Unreadable)))"

text \<open>\<^verbatim>\<open>if (!existsSync(dir)) mkdirSync(dir, {recursive: true})\<close>, outside any \<^verbatim>\<open>try\<close>.\<close>

definition ensure_dir :: "bool \<Rightarrow> disk \<Rightarrow> registry_error + disk" where
  "ensure_dir mkdirOk d =
     (case d of
        NoDir \<Rightarrow> if mkdirOk then Inr (Dir Absent) else Inl MkdirFailed
      | Dir f \<Rightarrow> Inr (Dir f))"

text \<open>
  \<open>uuid\<close> is the value of \<^verbatim>\<open>randomUUID()\<close>, \<open>startTime\<close> that of \<^verbatim>\<open>Date.now()\<close>.
  When \<^verbatim>\<open>mkdirSync\<close> throws, the exception leaves the function after the two module
  variables have been assigned.
\<close>

definition markInstanceStart ::
  "string \<Rightarrow> int \<Rightarrow> bool \<Rightarrow> write_outcome \<Rightarrow> registry_state
     \<Rightarrow> (registry_error + string) \<times> registry_state" where
  "markInstanceStart uuid startTime mkdirOk outcome s =
     (let s1 = s\<lparr>currentInstanceId := uuid\<rparr>;
          previousRegistry = (case read_registry (fs s1) of Inl _ \<Rightarrow> None | Inr r \<Rightarrow> r);
          s2 = (case previousRegistry of
                  None \<Rightarrow> s1
                | Some r \<Rightarrow> s1\<lparr>previousInstanceId := Some (instanceId r)\<rparr>);
          registry = \<lparr>version = 1, instanceId = currentInstanceId s2,
                      reg_previousInstanceId = previousInstanceId s2,
                      startedAt = startTime, lastCleanExit = False,
                      processes = (case previousRegistry of None \<Rightarrow> [] | Some r \<Rightarrow> processes r)\<rparr>
      in case ensure_dir mkdirOk (fs s2) of
           Inl e \<Rightarrow> (Inl e, s2)
         | Inr d \<Rightarrow>
             (case write_registry outcome registry d of
                (True, d1) \<Rightarrow> (Inr (currentInstanceId s2),
                               s2\<lparr>fs := d1, registryCache := Some registry\<rparr>)
              | (False, d1) \<Rightarrow> (Inr (currentInstanceId s2), s2\<lparr>fs := d1\<rparr>)))"


definition getPreviousInstanceId :: "registry_state \<Rightarrow> string option" where
  "getPreviousInstanceId s = previousInstanceId s"

definition loadRegistry :: "registry_state \<Rightarrow> HealthRegistry option \<times> registry_state" where
  "loadRegistry s =
     (case registryCache s of
        Some r \<Rightarrow> (Some r, s)
      | None \<Rightarrow>
          (case read_registry (fs s) of
             Inl _ \<Rightarrow> (None, s)
           | Inr None \<Rightarrow> (None, s)
           | Inr (Some r) \<Rightarrow> (Some r, s\<lparr>registryCache := Some r\<rparr>)))"

definition saveRegistry :: "write_outcome \<Rightarrow> HealthRegistry \<Rightarrow> registry_state \<Rightarrow> registry_state" where
  "saveRegistry outcome registry s =
     (case write_registry outcome registry (fs s) of
        (True, d1) \<Rightarrow> s\<lparr>fs := d1, registryCache := Some registry\<rparr>
      | (False, d1) \<Rightarrow> s\<lparr>fs := d1\<rparr>)"

fun findIndex :: "('a \<Rightarrow> bool) \<Rightarrow> 'a list \<Rightarrow> nat option" where
  "findIndex P [] = None"
| "findIndex P (x # xs) =
     (if P x then Some 0 else (case findIndex P xs of None \<Rightarrow> None | Some i \<Rightarrow> Some (Suc i)))"

text \<open>
  The object returned by \<^verbatim>\<open>loadRegistry()\<close> is the cached object itself, so the updates
  \<^verbatim>\<open>registry.processes[i] = e\<close>, \<^verbatim>\<open>push\<close>, \<^verbatim>\<open>splice\<close> and the field assignments change
  the cache at once, also when the following \<^verbatim>\<open>saveRegistry\<close> fails: \<open>mutate\<close> is that
  in-place update.
\<close>

definition mutate :: "HealthRegistry \<Rightarrow> registry_state \<Rightarrow> registry_state" where
  "mutate registry s = s\<lparr>registryCache := Some registry\<rparr>"

definition registerProcess ::
  "ProcessEntry \<Rightarrow> int \<Rightarrow> write_outcome \<Rightarrow> registry_state \<Rightarrow> registry_state" where
  "registerProcess entry now outcome s =
     (case loadRegistry s of
        (None, s1) \<Rightarrow> s1
      | (Some registry, s1) \<Rightarrow>
          (let existingIndex =
                 findIndex (\<lambda>p. pe_id p = pe_id entry \<and> pe_type p = pe_type entry)
                   (processes registry);
               newEntry = entry\<lparr>pe_lastHeartbeat := now\<rparr>;
               registry1 =
                 (case existingIndex of
                    Some i \<Rightarrow> registry\<lparr>processes := (processes registry)[i := newEntry]\<rparr>
                  | None \<Rightarrow> registry\<lparr>processes := processes registry @ [newEntry]\<rparr>)
           in saveRegistry outcome registry1 (mutate registry1 s1)))"

definition unregisterProcess ::
  "string \<Rightarrow> ProcessType \<Rightarrow> write_outcome \<Rightarrow> registry_state \<Rightarrow> registry_state" where
  "unregisterProcess ident type outcome s =
     (case loadRegistry s of
        (None, s1) \<Rightarrow> s1
      | (Some registry, s1) \<Rightarrow>
          (case findIndex (\<lambda>p. pe_id p = ident \<and> pe_type p = type) (processes registry) of
             Some i \<Rightarrow>
               (let registry1 =
                      registry\<lparr>processes :=
                        take i (processes registry) @ drop (Suc i) (processes registry)\<rparr>
                in saveRegistry outcome registry1 (mutate registry1 s1))
           | None \<Rightarrow> s1))"

definition getCurrentProcesses :: "registry_state \<Rightarrow> ProcessEntry list \<times> registry_state" where
  "getCurrentProcesses s =
     (case loadRegistry s of
        (None, s1) \<Rightarrow> ([], s1)
      | (Some registry, s1) \<Rightarrow>
          (filter (\<lambda>p. pe_instanceId p = currentInstanceId s1) (processes registry), s1))"

definition getOrphanProcesses :: "registry_state \<Rightarrow> ProcessEntry list \<times> registry_state" where
  "getOrphanProcesses s =
     (case loadRegistry s of
        (None, s1) \<Rightarrow> ([], s1)
      | (Some registry, s1) \<Rightarrow>
          (filter (\<lambda>p. pe_instanceId p \<noteq> currentInstanceId s1) (processes registry), s1))"

definition clearOrphanEntries :: "write_outcome \<Rightarrow> registry_state \<Rightarrow> registry_state" where
  "clearOrphanEntries outcome s =
     (case loadRegistry s of
        (None, s1) \<Rightarrow> s1
      | (Some registry, s1) \<Rightarrow>
          (let originalCount = length (processes registry);
               registry1 =
                 registry\<lparr>processes :=
                   filter (\<lambda>p. pe_instanceId p = currentInstanceId s1) (processes registry)\<rparr>;
               s2 = mutate registry1 s1
           in if length (processes registry1) < originalCount
              then saveRegistry outcome registry1 s2 else s2))"

definition markCleanExit :: "write_outcome \<Rightarrow> registry_state \<Rightarrow> registry_state" where
  "markCleanExit outcome s =
     (case loadRegistry s of
        (None, s1) \<Rightarrow> s1
      | (Some registry, s1) \<Rightarrow>
          (let registry1 = registry\<lparr>lastCleanExit := True\<rparr>
           in saveRegistry outcome registry1 (mutate registry1 s1)))"

section \<open>Recovery executor (recovery-manager/executor.ts)\<close>

record RecoveryResult =
  rr_strategyId :: RecoveryStrategyId
  rr_success :: bool
  rr_message :: string
  rr_timestamp :: int
  rr_data :: "(string \<times> jsvalue) list option"

text \<open>
  What a strategy does outside the modules embedded here: the injected session
  teardown, the orphan cleanup of the process guardian (\<^verbatim>\<open>cleanupOrphans\<close> of
  \<^verbatim>\<open>cleaner.ts\<close>, an asynchronous run of operating-system commands) and the delayed
  \<^verbatim>\<open>app.relaunch(); app.exit(0)\<close>. Each invocation is appended to the log \<open>effects\<close>;
  whether it returns or throws is an input.
\<close>

datatype effect = CloseAllSessions | CleanupOrphans | ScheduleRelaunch

record health_world =
  listener :: listener_state
  registry :: registry_state
  recentRecoveryAttempts :: nat
  lastRecoveryTime :: int
  closeAllSessionsFn :: bool
  effects :: "effect list"

text \<open>
  The inputs of one \<^verbatim>\<open>executeRecovery\<close> call that the program state does not determine:
  the clock at entry, inside \<^verbatim>\<open>emitHealthEvent\<close> and at the result; whether the session
  teardown and the orphan cleanup return (\<open>None\<close>) or throw an \<^verbatim>\<open>Error\<close> with a message;
  the outcome of the registry writes of \<^verbatim>\<open>markCleanExit\<close> and \<^verbatim>\<open>clearOrphanEntries\<close>;
  and the registered event handlers.
\<close>

record recovery_env =
  env_now :: int
  env_emitTime :: int
  env_resultTime :: int
  env_closeSessions :: "string option"
  env_cleanupOrphans :: "string option"
  env_writeExit :: write_outcome
  env_writeClear :: write_outcome
  env_handlers :: "HealthEventHandler list"

definition RECOVERY_COOLDOWN_MS :: int where
  "RECOVERY_COOLDOWN_MS = 30000"

definition MAX_RECOVERY_ATTEMPTS :: nat where
  "MAX_RECOVERY_ATTEMPTS = 3"

definition world_init :: "disk \<Rightarrow> health_world" where
  "world_init d =
     \<lparr>listener = listener_init, registry = registry_init d, recentRecoveryAttempts = 0,
      lastRecoveryTime = 0, closeAllSessionsFn = False, effects = []\<rparr>"

definition injectSessionCleanup :: "health_world \<Rightarrow> health_world" where
  "injectSessionCleanup w = w\<lparr>closeAllSessionsFn := True\<rparr>"

text \<open>\<^verbatim>\<open>if (closeAllSessionsFn) closeAllSessionsFn()\<close>; the error message when it throws.\<close>

definition closeAllSessions :: "recovery_env \<Rightarrow> health_world \<Rightarrow> string option \<times> health_world" where
  "closeAllSessions env w =
     (if closeAllSessionsFn w
      then (env_closeSessions env, w\<lparr>effects := effects w @ [CloseAllSessions]\<rparr>)
      else (None, w))"

definition cleanupOrphans :: "recovery_env \<Rightarrow> health_world \<Rightarrow> string option \<times> health_world" where
  "cleanupOrphans env w = (env_cleanupOrphans env, w\<lparr>effects := effects w @ [CleanupOrphans]\<rparr>)"

definition recoverySuccess :: "recovery_env \<Rightarrow> string \<Rightarrow> string \<Rightarrow> health_world \<Rightarrow> health_world" where
  "recoverySuccess env strategyId message w =
     w\<lparr>listener :=
         emitRecoverySuccess (env_handlers env) (env_emitTime env) strategyId message (listener w)\<rparr>"

definition failed :: "RecoveryStrategyId \<Rightarrow> string \<Rightarrow> int \<Rightarrow> RecoveryResult" where
  "failed strategyId message t =
     \<lparr>rr_strategyId = strategyId, rr_success = False, rr_message = message,
      rr_timestamp = t, rr_data = None\<rparr>"

definition executeS1 :: "recovery_env \<Rightarrow> health_world \<Rightarrow> RecoveryResult \<times> health_world" where
  "executeS1 env w =
     (let w1 = recoverySuccess env ''S1'' ''Process marked for restart on next use'' w
      in (\<lparr>rr_strategyId = S1, rr_success = True,
           rr_message = ''Process will be recreated on next use'',
           rr_timestamp = env_resultTime env, rr_data = None\<rparr>, w1))"

definition executeS2 :: "recovery_env \<Rightarrow> health_world \<Rightarrow> RecoveryResult \<times> health_world" where
  "executeS2 env w =
     (case closeAllSessions env w of
        (Some err, w1) \<Rightarrow> (failed S2 (''Reset failed: '' @ err) (env_resultTime env), w1)
      | (None, w1) \<Rightarrow>
          (case cleanupOrphans env w1 of
             (Some err, w2) \<Rightarrow> (failed S2 (''Reset failed: '' @ err) (env_resultTime env), w2)
           | (None, w2) \<Rightarrow>
               (let w3 = w2\<lparr>listener := resetErrorCounter ''agent'' (listener w2)\<rparr>;
                    w4 = recoverySuccess env ''S2'' ''Agent engine reset successfully'' w3
                in (\<lparr>rr_strategyId = S2, rr_success = True,
                     rr_message = ''Agent engine reset successfully'',
                     rr_timestamp = env_resultTime env,
                     rr_data = Some [(''sessionsClosed'', JBool True),
                                     (''orphansCleaned'', JBool True)]\<rparr>, w4))))"

definition executeS3 :: "recovery_env \<Rightarrow> health_world \<Rightarrow> RecoveryResult \<times> health_world" where
  "executeS3 env w =
     (let w1 = w\<lparr>registry := markCleanExit (env_writeExit env) (registry w)\<rparr>
      in case closeAllSessions env w1 of
           (Some err, w2) \<Rightarrow> (failed S3 (''Restart failed: '' @ err) (env_resultTime env), w2)
         | (None, w2) \<Rightarrow>
             (let w3 = w2\<lparr>registry := clearOrphanEntries (env_writeClear env) (registry w2)\<rparr>;
                  w4 = recoverySuccess env ''S3'' ''Application restart initiated'' w3;
                  w5 = w4\<lparr>effects := effects w4 @ [ScheduleRelaunch]\<rparr>
              in (\<lparr>rr_strategyId = S3, rr_success = True,
                   rr_message = ''Application restart initiated'',
                   rr_timestamp = env_resultTime env, rr_data = None\<rparr>, w5)))"

definition executeS4 :: "recovery_env \<Rightarrow> health_world \<Rightarrow> RecoveryResult \<times> health_world" where
  "executeS4 env w =
     (case closeAllSessions env w of
        (Some err, w1) \<Rightarrow>
          (failed S4 (''Factory reset failed: '' @ err) (env_resultTime env), w1)
      | (None, w1) \<Rightarrow>
          (case cleanupOrphans env w1 of
             (Some err, w2) \<Rightarrow>
               (failed S4 (''Factory reset failed: '' @ err) (env_resultTime env), w2)
           | (None, w2) \<Rightarrow>
               (let w3 = w2\<lparr>registry := clearOrphanEntries (env_writeClear env) (registry w2)\<rparr>;
                    w4 = recoverySuccess env ''S4'' ''Factory reset completed'' w3;
                    w5 = w4\<lparr>effects := effects w4 @ [ScheduleRelaunch]\<rparr>
                in (\<lparr>rr_strategyId = S4, rr_success = True,
                     rr_message = ''Factory reset completed, restarting...'',
                     rr_timestamp = env_resultTime env, rr_data = None\<rparr>, w5))))"

text \<open>
  The \<^verbatim>\<open>switch (strategyId)\<close>. Its \<^verbatim>\<open>default\<close> branch and the enclosing \<^verbatim>\<open>catch\<close> are
  unreachable: the type has four values and each strategy function catches its own
  exceptions.
\<close>

fun executeStrategy ::
  "RecoveryStrategyId \<Rightarrow> recovery_env \<Rightarrow> health_world \<Rightarrow> RecoveryResult \<times> health_world" where
  "executeStrategy S1 env w = executeS1 env w"
| "executeStrategy S2 env w = executeS2 env w"
| "executeStrategy S3 env w = executeS3 env w"
| "executeStrategy S4 env w = executeS4 env w"

definition executeRecovery ::
  "RecoveryStrategyId \<Rightarrow> bool \<Rightarrow> recovery_env \<Rightarrow> health_world \<Rightarrow> RecoveryResult \<times> health_world" where
  "executeRecovery strategyId userConsented env w =
     (let strategy = getStrategy strategyId;
          now = env_now env
      in if st_requiresConsent strategy \<and> \<not> userConsented
         then (failed strategyId ''User consent required'' now, w)
         else if now - lastRecoveryTime w < RECOVERY_COOLDOWN_MS
         then (let w1 = w\<lparr>recentRecoveryAttempts := recentRecoveryAttempts w + 1\<rparr>
               in if recentRecoveryAttempts w1 > MAX_RECOVERY_ATTEMPTS
                  then (failed strategyId ''Recovery rate limit exceeded'' now, w1)
                  else executeStrategy strategyId env (w1\<lparr>lastRecoveryTime := now\<rparr>))
         else executeStrategy strategyId env
                (w\<lparr>recentRecoveryAttempts := 1, lastRecoveryTime := now\<rparr>))"

definition canRecover :: "int \<Rightarrow> health_world \<Rightarrow> bool" where
  "canRecover now w =
     (if now - lastRecoveryTime w < RECOVERY_COOLDOWN_MS
      then recentRecoveryAttempts w < MAX_RECOVERY_ATTEMPTS else True)"

section \<open>Health probes (health-checker/probes)\<close>

datatype HealthSeverity = Info | Warning | Critical

datatype cleanup_method = ByPid | ByArgs

record CleanupResult =
  cleaned :: nat
  cr_failed :: nat
  details :: "(int \<times> ProcessType \<times> cleanup_method) list"

text \<open>The \<^verbatim>\<open>data\<close> field of the five result variants.\<close>

datatype probe_data =
    ConfigData bool bool bool bool "string list"
  | DiskData int int
  | PortData "int list" "int list" "int list"
  | ProcessData "(int \<times> ProcessType \<times> string) list" "ProcessEntry list" nat
  | ServiceData string bool "int option" "string option"

record ProbeResult =
  pr_name :: string
  healthy :: bool
  severity :: HealthSeverity
  pr_message :: string
  pr_timestamp :: int
  pr_data :: probe_data

text \<open>Decimal rendering of an integer in a template string.\<close>

fun show_nat :: "nat \<Rightarrow> string" where
  "show_nat n =
     (if n < 10 then [char_of (48 + n)] else show_nat (n div 10) @ [char_of (48 + n mod 10)])"

definition show_int :: "int \<Rightarrow> string" where
  "show_int i = (if i < 0 then CHR ''-'' # show_nat (nat (- i)) else show_nat (nat i))"

subsection \<open>Config probe\<close>

text \<open>
  The configuration file as the probe sees it: missing; unreadable or not JSON (with
  the parser's message); or parsed. A parsed file is the JSON value \<^verbatim>\<open>null\<close> (\<open>None\<close>)
  or a value whose properties the probe reads: \<open>current\<close> is present when
  \<^verbatim>\<open>aiSources.current\<close> is a string, \<open>apiKey\<close> and \<open>accessToken\<close> when they are strings,
  \<open>permissions\<close> when \<^verbatim>\<open>config.permissions\<close> is an object.
\<close>

record provider_json =
  apiKey :: "string option"
  accessToken :: "string option"

record aiSources_json =
  current :: "string option"
  providers :: "(string \<times> provider_json) list"

record config_json =
  aiSources :: "aiSources_json option"
  permissions :: bool

datatype config_file = ConfigMissing | ConfigInvalid string | ConfigParsed "config_json option"

definition configResult ::
  "bool \<Rightarrow> HealthSeverity \<Rightarrow> string \<Rightarrow> int \<Rightarrow> bool \<Rightarrow> bool \<Rightarrow> bool \<Rightarrow> bool \<Rightarrow> string list \<Rightarrow> ProbeResult" where
  "configResult h sev msg now fileExists jsonValid criticalFieldsPresent apiKeyConfigured errors =
     \<lparr>pr_name = ''config'', healthy = h, severity = sev, pr_message = msg, pr_timestamp = now,
      pr_data = ConfigData fileExists jsonValid criticalFieldsPresent apiKeyConfigured errors\<rparr>"

text \<open>
  Reading \<^verbatim>\<open>config.aiSources\<close> of the value \<^verbatim>\<open>null\<close> throws a \<^verbatim>\<open>TypeError\<close> inside the
  outer \<^verbatim>\<open>try\<close>: that is the \<open>ConfigParsed None\<close> case, answered by the outer \<^verbatim>\<open>catch\<close>.
\<close>

definition runConfigProbe :: "config_file \<Rightarrow> int \<Rightarrow> ProbeResult" where
  "runConfigProbe file now =
     (case file of
        ConfigMissing \<Rightarrow>
          configResult False Info ''Config file not found, will be created on first launch'' now
            False False False False [''Config file does not exist'']
      | ConfigInvalid parseError \<Rightarrow>
          configResult False Critical ''Config file is corrupted (invalid JSON)'' now
            True False False False [''JSON parse error: '' @ parseError]
      | ConfigParsed None \<Rightarrow>
          (let err = ''Cannot read properties of null (reading 'aiSources')''
           in configResult False Critical (''Config check failed: '' @ err) now
                True True False False [''Unexpected error: '' @ err])
      | ConfigParsed (Some config) \<Rightarrow>
          (let hasAiSourcesCurrent =
                 (case aiSources config of None \<Rightarrow> False | Some a \<Rightarrow> current a \<noteq> None);
               hasPermissions = permissions config;
               criticalFieldsPresent = (hasAiSourcesCurrent \<and> hasPermissions);
               errors = (if \<not> hasAiSourcesCurrent then [''Missing aiSources.current field'']
                         else [])
                        @ (if \<not> hasPermissions then [''Missing permissions field''] else []);
               currentSource = (case aiSources config of None \<Rightarrow> None | Some a \<Rightarrow> current a);
               lookup = (\<lambda>k. case aiSources config of
                                None \<Rightarrow> None | Some a \<Rightarrow> map_of (providers a) k);
               apiKeyConfigured =
                 (case currentSource of
                    None \<Rightarrow> False
                  | Some src \<Rightarrow>
                      if src = ''custom''
                      then (case lookup ''custom'' of
                              None \<Rightarrow> False
                            | Some custom \<Rightarrow>
                                (case apiKey custom of None \<Rightarrow> False | Some k \<Rightarrow> length k > 0))
                      else if src \<noteq> []
                      then (case lookup src of
                              None \<Rightarrow> False
                            | Some provider \<Rightarrow>
                                (case accessToken provider of
                                   None \<Rightarrow> False | Some t \<Rightarrow> t \<noteq> []))
                      else False);
               h = criticalFieldsPresent;
               sev = (if \<not> h then Critical else if \<not> apiKeyConfigured then Warning else Info);
               msg = (if \<not> criticalFieldsPresent then ''Config file missing critical fields''
                      else if \<not> apiKeyConfigured then ''No API key configured''
                      else ''Config file is healthy'')
           in configResult h sev msg now True True criticalFieldsPresent apiKeyConfigured errors))"

subsection \<open>Disk probe\<close>

definition MIN_FREE_SPACE_MB :: int where
  "MIN_FREE_SPACE_MB = 100"

definition WARNING_FREE_SPACE_MB :: int where
  "WARNING_FREE_SPACE_MB = 500"

text \<open>
  JavaScript numbers are IEEE doubles. A product of two integer-valued doubles is the
  exact product rounded to 53 significant bits, ties to even: \<open>to_double\<close> is that
  rounding of an integer (the identity up to \<open>2^53\<close>).
\<close>

function bit_length :: "int \<Rightarrow> nat" where
  "bit_length n = (if n \<le> 0 then 0 else Suc (bit_length (n div 2)))"
  by pat_completeness auto
termination
  by (relation "measure nat") auto

declare bit_length.simps [simp del]

definition round_half_even :: "int \<Rightarrow> int \<Rightarrow> int" where
  "round_half_even m d =
     (let q = m div d; r = m mod d
      in if 2 * r < d then q
         else if 2 * r > d then q + 1
         else if even q then q else q + 1)"

definition to_double :: "int \<Rightarrow> int" where
  "to_double n =
     (let m = \<bar>n\<bar>; e = bit_length m - 53
      in if e = 0 then n else sgn n * (round_half_even m (2 ^ e) * 2 ^ e))"

text \<open>\<^verbatim>\<open>statfsSync\<close> throws, or returns \<^verbatim>\<open>bfree\<close>, \<^verbatim>\<open>bsize\<close> and \<^verbatim>\<open>blocks\<close>.\<close>

datatype statfs = StatfsThrows | Statfs int int int

definition getDiskSpace :: "statfs \<Rightarrow> (int \<times> int) option" where
  "getDiskSpace st =
     (case st of
        StatfsThrows \<Rightarrow> None
      | Statfs bfree bsize blocks \<Rightarrow>
          Some (to_double (bfree * bsize), to_double (blocks * bsize)))"

definition diskResult :: "bool \<Rightarrow> HealthSeverity \<Rightarrow> string \<Rightarrow> int \<Rightarrow> int \<Rightarrow> int \<Rightarrow> ProbeResult" where
  "diskResult h sev msg now freeSpace totalSpace =
     \<lparr>pr_name = ''disk'', healthy = h, severity = sev, pr_message = msg, pr_timestamp = now,
      pr_data = DiskData freeSpace totalSpace\<rparr>"

text \<open>
  \<open>formatBytes\<close> and \<open>percent\<close> stand for the decimal renderings
  \<^verbatim>\<open>formatBytes(free)\<close> and \<^verbatim>\<open>freePercent.toFixed(1)\<close>; the field \<^verbatim>\<open>freePercent\<close> of the
  data is left out with them. The comparison \<^verbatim>\<open>free / (1024 * 1024) < limit\<close> divides a
  double by a power of two, which is exact, so it is the integer comparison
  \<open>free < limit * 1024 * 1024\<close>.

  The error path of this probe is a failing \<^verbatim>\<open>statfsSync\<close>, which \<^verbatim>\<open>getDiskSpace\<close> turns
  into \<^verbatim>\<open>null\<close>. Nothing else inside the \<^verbatim>\<open>try\<close> block throws, so its \<^verbatim>\<open>catch\<close> block
  (which answers \<^verbatim>\<open>healthy: true\<close>, \<^verbatim>\<open>warning\<close> as well) is never entered and has no
  branch here.
\<close>

definition runDiskProbe ::
  "(int \<Rightarrow> string) \<Rightarrow> (int \<Rightarrow> int \<Rightarrow> string) \<Rightarrow> statfs \<Rightarrow> int \<Rightarrow> ProbeResult" where
  "runDiskProbe formatBytes percent st now =
     (case getDiskSpace st of
        None \<Rightarrow> diskResult True Warning ''Unable to check disk space'' now 0 0
      | Some (freeBytes, totalBytes) \<Rightarrow>
          if freeBytes < MIN_FREE_SPACE_MB * 1024 * 1024
          then diskResult False Critical
                 (''Critical: Only '' @ formatBytes freeBytes
                    @ '' free - app may not function properly'') now freeBytes totalBytes
          else if freeBytes < WARNING_FREE_SPACE_MB * 1024 * 1024
          then diskResult True Warning
                 (''Warning: Low disk space - '' @ formatBytes freeBytes @ '' free'')
                 now freeBytes totalBytes
          else diskResult True Info
                 (formatBytes freeBytes @ '' free ('' @ percent freeBytes totalBytes @ ''%)'')
                 now freeBytes totalBytes)"

subsection \<open>Port probe\<close>

definition HTTP_SERVER_PORT_START :: int where
  "HTTP_SERVER_PORT_START = 3847"

definition HTTP_SERVER_PORT_END :: int where
  "HTTP_SERVER_PORT_END = 3866"

text \<open>
  \<^verbatim>\<open>isPortAvailable\<close> binds a server to the port and resolves on its first event:
  \<^verbatim>\<open>false\<close> on \<^verbatim>\<open>error\<close>, \<^verbatim>\<open>true\<close> on \<^verbatim>\<open>listening\<close>. It never rejects. Which event
  comes for a port is the input \<open>bind\<close>.
\<close>

datatype bind_event = ErrorEvent | ListeningEvent

definition isPortAvailable :: "bind_event \<Rightarrow> bool" where
  "isPortAvailable event = (case event of ErrorEvent \<Rightarrow> False | ListeningEvent \<Rightarrow> True)"

text \<open>
  The loop over the port range, with the three arrays. \<^verbatim>\<open>getPortUser\<close> returns
  \<^verbatim>\<open>undefined\<close>, so an occupied port is recorded by its number alone.
\<close>

fun scanPorts ::
  "(int \<Rightarrow> bind_event) \<Rightarrow> int list \<Rightarrow> int list \<times> int list \<times> int list
     \<Rightarrow> int list \<times> int list \<times> int list" where
  "scanPorts bind [] acc = acc"
| "scanPorts bind (port # ports) (portsToCheck, portsOccupied, portsAvailable) =
     (if isPortAvailable (bind port)
      then scanPorts bind ports (portsToCheck @ [port], portsOccupied, portsAvailable @ [port])
      else scanPorts bind ports (portsToCheck @ [port], portsOccupied @ [port], portsAvailable))"

text \<open>
  Nothing inside the \<^verbatim>\<open>try\<close> block of \<^verbatim>\<open>runPortProbe\<close> throws (a bind error is an
  answer of \<^verbatim>\<open>isPortAvailable\<close>), so its \<^verbatim>\<open>catch\<close> block is never entered and has no
  branch here.
\<close>

definition runPortProbe :: "(int \<Rightarrow> bind_event) \<Rightarrow> int \<Rightarrow> ProbeResult" where
  "runPortProbe bind now =
     (case scanPorts bind [HTTP_SERVER_PORT_START..HTTP_SERVER_PORT_END] ([], [], []) of
        (portsToCheck, portsOccupied, portsAvailable) \<Rightarrow>
          (let hasAvailablePort = length portsAvailable > 0;
               sev = (if hasAvailablePort then Info else Warning);
               msg = (if \<not> hasAvailablePort then ''All HTTP server ports are occupied''
                      else if length portsOccupied > 0
                      then show_nat (length portsOccupied) @ '' ports occupied, ''
                             @ show_nat (length portsAvailable) @ '' available''
                      else ''Ports available for use'')
           in \<lparr>pr_name = ''port'', healthy = hasAvailablePort, severity = sev,
                pr_message = msg, pr_timestamp = now,
                pr_data = PortData portsToCheck portsOccupied portsAvailable\<rparr>))"

subsection \<open>Process probe\<close>

text \<open>
  \<open>cleanup\<close> is the outcome of \<^verbatim>\<open>await cleanupOrphans()\<close>: its result, or \<open>Inl\<close> the
  message of the exception it throws. (\<^verbatim>\<open>cleanupOrphans\<close> is the cleaner of the process
  guardian; it kills processes through the platform operations, whose \<^verbatim>\<open>killProcess\<close>
  rethrows what is not "No such process".)
\<close>

definition runProcessProbe ::
  "string + CleanupResult \<Rightarrow> int \<Rightarrow> registry_state \<Rightarrow> ProbeResult \<times> registry_state" where
  "runProcessProbe cleanup now s =
     (case getOrphanProcesses s of
        (orphansBefore, s1) \<Rightarrow>
          (case getCurrentProcesses s1 of
             (currentProcesses, s2) \<Rightarrow>
               (case cleanup of
                  Inl err \<Rightarrow>
                    (\<lparr>pr_name = ''process'', healthy = True, severity = Warning,
                      pr_message = ''Process check failed: '' @ err, pr_timestamp = now,
                      pr_data = ProcessData [] [] 0\<rparr>, s2)
                | Inr cleanupResult \<Rightarrow>
                    (let h = (cr_failed cleanupResult = 0);
                         sev = (if length orphansBefore > 0 then Warning else Info);
                         msg = (if length orphansBefore > 0
                                then ''Cleaned up '' @ show_nat (cleaned cleanupResult)
                                       @ '' orphan processes''
                                       @ (if cr_failed cleanupResult > 0
                                          then '', '' @ show_nat (cr_failed cleanupResult)
                                                 @ '' failed to clean''
                                          else [])
                                else ''No orphan processes found'')
                     in (\<lparr>pr_name = ''process'', healthy = h, severity = sev,
                          pr_message = msg, pr_timestamp = now,
                          pr_data = ProcessData
                            (map (\<lambda>p. (case pe_pid p of None \<Rightarrow> 0 | Some n \<Rightarrow> n,
                                        pe_type p, pe_instanceId p)) orphansBefore)
                            currentProcesses (cleaned cleanupResult)\<rparr>, s2)))))"

subsection \<open>Service probe\<close>

text \<open>
  The outcome of \<^verbatim>\<open>fetch\<close>: a response with its status, the abort at the 3 s timeout,
  or another error with its message. \<^verbatim>\<open>response.ok\<close> is a status from 200 to 299.
\<close>

datatype fetch_outcome = Response int | AbortError | FetchError string

record endpoint_check =
  responsive :: bool
  responseTime :: "int option"
  error :: "string option"

definition checkHttpEndpoint :: "fetch_outcome \<Rightarrow> int \<Rightarrow> int \<Rightarrow> endpoint_check" where
  "checkHttpEndpoint outcome startTime endTime =
     (case outcome of
        Response status \<Rightarrow>
          \<lparr>responsive = ((200 \<le> status \<and> status \<le> 299) \<or> status < 500),
           responseTime = Some (endTime - startTime), error = None\<rparr>
      | AbortError \<Rightarrow>
          \<lparr>responsive = False, responseTime = Some (endTime - startTime),
           error = Some ''Timeout''\<rparr>
      | FetchError msg \<Rightarrow>
          \<lparr>responsive = False, responseTime = Some (endTime - startTime), error = Some msg\<rparr>)"

definition show_opt_int :: "int option \<Rightarrow> string" where
  "show_opt_int v = (case v of None \<Rightarrow> ''undefined'' | Some i \<Rightarrow> show_int i)"

definition show_opt_str :: "string option \<Rightarrow> string" where
  "show_opt_str v = (case v of None \<Rightarrow> ''undefined'' | Some t \<Rightarrow> t)"

definition checkOpenAIRouter :: "fetch_outcome \<Rightarrow> int \<Rightarrow> int \<Rightarrow> int \<Rightarrow> ProbeResult" where
  "checkOpenAIRouter outcome startTime endTime now =
     (let result = checkHttpEndpoint outcome startTime endTime
      in \<lparr>pr_name = ''service'', healthy = responsive result,
           severity = (if responsive result then Info else Critical),
           pr_message =
             (if responsive result
              then ''OpenAI Router responsive ('' @ show_opt_int (responseTime result) @ ''ms)''
              else ''OpenAI Router not responding: '' @ show_opt_str (error result)),
           pr_timestamp = now,
           pr_data = ServiceData ''openai-router'' (responsive result) (responseTime result)
                       (error result)\<rparr>)"

definition checkHttpServer :: "fetch_outcome \<Rightarrow> int \<Rightarrow> int \<Rightarrow> int \<Rightarrow> ProbeResult" where
  "checkHttpServer outcome startTime endTime now =
     (let result = checkHttpEndpoint outcome startTime endTime
      in \<lparr>pr_name = ''service'', healthy = responsive result,
           severity = (if responsive result then Info else Warning),
           pr_message =
             (if responsive result
              then ''HTTP Server responsive ('' @ show_opt_int (responseTime result) @ ''ms)''
              else ''HTTP Server not responding: '' @ show_opt_str (error result)),
           pr_timestamp = now,
           pr_data = ServiceData ''http-server'' (responsive result) (responseTime result)
                       (error result)\<rparr>)"

section \<open>Runs of calls\<close>

text \<open>
  The claims speak of sequences of calls. A run threads the state through a list of
  calls and collects what they return.
\<close>

subsection \<open>Event listener\<close>

fun trackErrors :: "string \<Rightarrow> int list \<Rightarrow> listener_state \<Rightarrow> nat list \<times> listener_state" where
  "trackErrors source [] s = ([], s)"
| "trackErrors source (t # ts) s =
     (case trackError source t s of
        (n, s1) \<Rightarrow> (case trackErrors source ts s1 of (ns, s2) \<Rightarrow> (n # ns, s2)))"

text \<open>Each call comes at most \<open>COUNTER_RESET_MS\<close> after the one before it.\<close>

fun within_window :: "int list \<Rightarrow> bool" where
  "within_window [] = True"
| "within_window [t] = True"
| "within_window (t # u # ts) = (u - t \<le> COUNTER_RESET_MS \<and> within_window (u # ts))"

text \<open>
  At time \<open>t\<close> the source has no counter, or one whose last increment is more than the
  window ago: the state of a source that is new or has been quiet.
\<close>

definition quiet :: "string \<Rightarrow> int \<Rightarrow> listener_state \<Rightarrow> bool" where
  "quiet source t s =
     (case map_of (errorCounters s) source of
        None \<Rightarrow> True
      | Some counter \<Rightarrow> t - lastTime counter > COUNTER_RESET_MS)"

datatype listener_call =
    Emit int HealthEventType HealthEventCategory string string "(string \<times> jsvalue) list option"
  | ClearRecent

fun listener_step :: "HealthEventHandler list \<Rightarrow> listener_call \<Rightarrow> listener_state \<Rightarrow> listener_state" where
  "listener_step handlers (Emit now type category source message data) s =
     emitHealthEvent handlers now type category source message data s"
| "listener_step handlers ClearRecent s = clearRecentEvents s"

fun listener_run :: "HealthEventHandler list \<Rightarrow> listener_call list \<Rightarrow> listener_state \<Rightarrow> listener_state" where
  "listener_run handlers [] s = s"
| "listener_run handlers (c # cs) s = listener_run handlers cs (listener_step handlers c s)"

text \<open>
  The events emitted by a list of calls since its last \<open>ClearRecent\<close>, newest first, in
  front of the events \<open>acc\<close> that were there before.
\<close>

fun emitted :: "listener_call list \<Rightarrow> HealthEvent list \<Rightarrow> HealthEvent list" where
  "emitted [] acc = acc"
| "emitted (Emit now type category source message data # cs) acc =
     emitted cs (\<lparr>ev_type = type, ev_category = category, ev_timestamp = now,
                  ev_source = source, ev_message = message, ev_data = data\<rparr> # acc)"
| "emitted (ClearRecent # cs) acc = emitted cs []"

text \<open>A handler that leaves the recent-events array as it is.\<close>

definition keeps_recent :: "HealthEventHandler \<Rightarrow> bool" where
  "keeps_recent handler = (\<forall>event s. recentEvents (handler event s) = recentEvents s)"

text \<open>An event to fill the buffer with.\<close>

definition ev0 :: HealthEvent where
  "ev0 = \<lparr>ev_type = startup_check, ev_category = CatInfo, ev_timestamp = 0,
          ev_source = ''startup'', ev_message = ''ok'', ev_data = None\<rparr>"

subsection \<open>Process registry\<close>


definition process_list :: "registry_state \<Rightarrow> ProcessEntry list" where
  "process_list s = (case fst (loadRegistry s) of None \<Rightarrow> [] | Some r \<Rightarrow> processes r)"

definition registered :: "string \<Rightarrow> ProcessType \<Rightarrow> registry_state \<Rightarrow> bool" where
  "registered ident type s = list_ex (\<lambda>p. pe_id p = ident \<and> pe_type p = type) (process_list s)"


definition restart :: "registry_state \<Rightarrow> registry_state" where
  "restart s = registry_init (fs s)"




definition old_entry :: ProcessEntry where
  "old_entry = \<lparr>pe_id = ''conv1'', pe_pid = Some 4242, pe_type = V2Session,
                 pe_instanceId = ''old'', pe_startedAt = 10, pe_lastHeartbeat = 20\<rparr>"

definition old_registry :: HealthRegistry where
  "old_registry = \<lparr>version = 1, instanceId = ''old'', reg_previousInstanceId = None,
                    startedAt = 5, lastCleanExit = False, processes = [old_entry]\<rparr>"

definition running_state :: registry_state where
  "running_state =
     registerProcess old_entry 20 Written
       (snd (markInstanceStart ''old'' 5 True Written (registry_init (Dir Absent))))"

subsection \<open>Recovery executor\<close>

type_synonym recovery_call = "RecoveryStrategyId \<times> bool \<times> recovery_env"

fun executeRecoveries ::
  "recovery_call list \<Rightarrow> health_world \<Rightarrow> RecoveryResult list \<times> health_world" where
  "executeRecoveries [] w = ([], w)"
| "executeRecoveries ((strategyId, userConsented, env) # cs) w =
     (case executeRecovery strategyId userConsented env w of
        (r, w1) \<Rightarrow> (case executeRecoveries cs w1 of (rs, w2) \<Rightarrow> (r # rs, w2)))"

text \<open>
  A call passes the consent check when consent was given or the strategy needs none.
  Results are told apart by what the caller sees: the two refusals of \<^verbatim>\<open>executeRecovery\<close>
  are the failures with its two fixed messages; every other result comes from a strategy
  function, which ran.
\<close>

definition call_time :: "recovery_call \<Rightarrow> int" where
  "call_time c = env_now (snd (snd c))"

definition passes_consent :: "recovery_call \<Rightarrow> bool" where
  "passes_consent c = (fst (snd c) \<or> \<not> requiresConsent (fst c))"

definition rate_limited :: "RecoveryResult \<Rightarrow> bool" where
  "rate_limited r = (\<not> rr_success r \<and> rr_message r = ''Recovery rate limit exceeded'')"

definition consent_refused :: "RecoveryResult \<Rightarrow> bool" where
  "consent_refused r = (\<not> rr_success r \<and> rr_message r = ''User consent required'')"

definition ran :: "RecoveryResult \<Rightarrow> bool" where
  "ran r = (\<not> rate_limited r \<and> \<not> consent_refused r)"

text \<open>
  Sample inputs: an environment in which nothing throws and no handler is registered, a
  clock value, a world with the session teardown injected, and two call sequences.
\<close>

definition env_at :: "int \<Rightarrow> recovery_env" where
  "env_at t =
     \<lparr>env_now = t, env_emitTime = t, env_resultTime = t, env_closeSessions = None,
      env_cleanupOrphans = None, env_writeExit = Written, env_writeClear = Written,
      env_handlers = []\<rparr>"

definition T0 :: int where
  "T0 = 1700000000000"

definition three_runs :: "recovery_call list" where
  "three_runs = [(S1, False, env_at T0), (S1, False, env_at (T0 + 1000)),
                 (S1, False, env_at (T0 + 2000))]"

definition ready_world :: health_world where
  "ready_world = injectSessionCleanup (world_init (Dir Absent))"

definition seven_calls :: "recovery_call list" where
  "seven_calls = [(S1, False, env_at T0), (S1, False, env_at (T0 + 20000)),
                  (S1, False, env_at (T0 + 40000)), (S1, False, env_at (T0 + 69000)),
                  (S1, False, env_at (T0 + 70000)), (S1, False, env_at (T0 + 71000)),
                  (S1, False, env_at (T0 + 72000))]"

text \<open>A world with error counters for two sources.\<close>

definition noisy_world :: health_world where
  "noisy_world =
     ready_world\<lparr>listener :=
       snd (trackError ''network:api'' (T0 - 10)
             (snd (trackError ''agent:conv1'' (T0 - 20) listener_init)))\<rparr>"

subsection \<open>Probes\<close>

text \<open>Two bind answers: every port fails; only port 3847 fails.\<close>

definition all_ports_fail :: "int \<Rightarrow> bind_event" where
  "all_ports_fail p = ErrorEvent"

definition one_port_fails :: "int \<Rightarrow> bind_event" where
  "one_port_fails p = (if p = 3847 then ErrorEvent else ListeningEvent)"

section \<open>Verification: event listener\<close>

lemma strategy_success_clears:
  "rr_success (fst (executeStrategy sid env w))
     \<Longrightarrow> errorCounters (listener (snd (executeStrategy sid env w))) = []"
  by (cases sid)
    (auto simp: executeS1_def executeS2_def executeS3_def executeS4_def closeAllSessions_def
      cleanupOrphans_def recoverySuccess_def emitRecoverySuccess_def failed_def Let_def
      split: option.splits prod.splits if_splits)

text \<open>
  C10. After \<^verbatim>\<open>emitRecoverySuccess(strategyId, message)\<close> returns, the counter map is
  empty: \<^verbatim>\<open>getErrorCount(source)\<close> is 0 for every source and \<^verbatim>\<open>getTotalErrorCount()\<close>
  is 0, whatever the strategy, the registered handlers and the counters before the call.
  So every strategy that succeeds leaves the counters of all sources cleared.
\<close>

theorem emitRecoverySuccess_clears_all_counters:
  "getErrorCount source (emitRecoverySuccess handlers now strategyId message s) = 0
   \<and> getTotalErrorCount (emitRecoverySuccess handlers now strategyId message s) = 0
   \<and> errorCounters (emitRecoverySuccess handlers now strategyId message s) = []
   \<and> (rr_success (fst (executeStrategy sid env w)) \<longrightarrow>
        getErrorCount source (listener (snd (executeStrategy sid env w))) = 0
        \<and> getTotalErrorCount (listener (snd (executeStrategy sid env w))) = 0)"
proof -
  have a: "getErrorCount source (emitRecoverySuccess handlers now strategyId message s) = 0
   \<and> getTotalErrorCount (emitRecoverySuccess handlers now strategyId message s) = 0
   \<and> errorCounters (emitRecoverySuccess handlers now strategyId message s) = []"
    by (simp add: emitRecoverySuccess_def getErrorCount_def getTotalErrorCount_def Let_def)
  have b: "rr_success (fst (executeStrategy sid env w)) \<longrightarrow>
        getErrorCount source (listener (snd (executeStrategy sid env w))) = 0
        \<and> getTotalErrorCount (listener (snd (executeStrategy sid env w))) = 0"
    using strategy_success_clears [of sid env w]
    by (simp add: getErrorCount_def getTotalErrorCount_def)
  from a b show ?thesis by blast
qed

theorem emitRecoverySuccess_clears_all_counters_witness:
  "getErrorCount ''network:api'' (listener noisy_world) = 1
   \<and> getTotalErrorCount (listener noisy_world) = 2
   \<and> getErrorCount ''network:api'' (listener (snd (executeStrategy S2 (env_at T0) noisy_world))) = 0
   \<and> getTotalErrorCount (listener (snd (executeStrategy S2 (env_at T0) noisy_world))) = 0"
proof -
  have n: "getErrorCount ''network:api'' (listener noisy_world) = 1
           \<and> getTotalErrorCount (listener noisy_world) = 2"
    by (simp add: noisy_world_def trackError_def listener_init_def getErrorCount_def
        getTotalErrorCount_def Let_def)
  have s: "rr_success (fst (executeStrategy S2 (env_at T0) noisy_world))"
    by (simp add: executeS2_def closeAllSessions_def cleanupOrphans_def env_at_def Let_def
        split: prod.splits)
  from emitRecoverySuccess_clears_all_counters [of "''network:api''" _ _ _ _ _ S2 "env_at T0" noisy_world]
    n s show ?thesis by simp
qed

lemma trackError_live:
  assumes "map_of (errorCounters s) source = Some c" "t - lastTime c \<le> COUNTER_RESET_MS"
  shows "fst (trackError source t s) = count c + 1"
    and "map_of (errorCounters (snd (trackError source t s))) source
           = Some (c\<lparr>count := count c + 1, lastTime := t\<rparr>)"
  using assms by (simp_all add: trackError_def Let_def update_conv')

lemma trackError_quiet:
  assumes "quiet source t s"
  shows "fst (trackError source t s) = 1"
    and "\<exists>c. map_of (errorCounters (snd (trackError source t s))) source = Some c
             \<and> count c = 1 \<and> lastTime c = t"
  using assms by (auto simp: trackError_def quiet_def Let_def update_conv' split: option.splits)

lemma trackErrors_live:
  assumes "map_of (errorCounters s) source = Some c" "within_window (lastTime c # ts)"
  shows "fst (trackErrors source ts s) = [count c + 1 ..< count c + 1 + length ts]
         \<and> (\<exists>c'. map_of (errorCounters (snd (trackErrors source ts s))) source = Some c'
                \<and> lastTime c' = last (lastTime c # ts))"
  using assms
proof (induction ts arbitrary: s c)
  case Nil
  then show ?case by simp
next
  case (Cons t ts)
  from Cons.prems have le: "t - lastTime c \<le> COUNTER_RESET_MS" and ww: "within_window (t # ts)"
    by simp_all
  obtain n s1 where st: "trackError source t s = (n, s1)" by (cases "trackError source t s")
  let ?c1 = "c\<lparr>count := count c + 1, lastTime := t\<rparr>"
  from trackError_live [OF Cons.prems(1) le] st
  have n: "n = count c + 1" and m1: "map_of (errorCounters s1) source = Some ?c1" by simp_all
  from ww have "within_window (lastTime ?c1 # ts)" by simp
  from Cons.IH [OF m1 this]
  have ih: "fst (trackErrors source ts s1) = [count c + 2 ..< count c + 2 + length ts]"
    and ex: "\<exists>c'. map_of (errorCounters (snd (trackErrors source ts s1))) source = Some c'
                \<and> lastTime c' = last (t # ts)" by simp_all
  have "fst (trackErrors source (t # ts) s) = n # fst (trackErrors source ts s1)"
    using st by (simp split: prod.splits)
  also have "\<dots> = [count c + 1 ..< count c + 1 + length (t # ts)]"
    using n ih by (simp add: upt_rec)
  finally have a: "fst (trackErrors source (t # ts) s) = [count c + 1 ..< count c + 1 + length (t # ts)]" .
  have "snd (trackErrors source (t # ts) s) = snd (trackErrors source ts s1)"
    using st by (simp split: prod.splits)
  with ex a show ?case by simp
qed

text \<open>
  C4. For a source that is new or quiet, \<open>N \<ge> 1\<close> calls of \<^verbatim>\<open>trackError(source)\<close>, each
  at most 60 s after the one before, return 1, 2, ..., N in this order; one more call
  more than 60 s after the last of them returns 1.
\<close>

theorem trackError_counts_within_window:
  assumes "quiet source t s" and "within_window (t # ts)"
  shows "fst (trackErrors source (t # ts) s) = [1 ..< Suc (length (t # ts))]
         \<and> (u - last (t # ts) > COUNTER_RESET_MS
            \<longrightarrow> fst (trackError source u (snd (trackErrors source (t # ts) s))) = 1)"
proof -
  obtain n s1 where st: "trackError source t s = (n, s1)" by (cases "trackError source t s")
  from trackError_quiet [OF assms(1)] st
  obtain c where n: "n = 1" and m1: "map_of (errorCounters s1) source = Some c"
    and c: "count c = 1" "lastTime c = t" by auto
  from assms(2) c have "within_window (lastTime c # ts)" by simp
  from trackErrors_live [OF m1 this]
  have ih: "fst (trackErrors source ts s1) = [count c + 1 ..< count c + 1 + length ts]"
    and ex0: "\<exists>c'. map_of (errorCounters (snd (trackErrors source ts s1))) source = Some c'
                \<and> lastTime c' = last (lastTime c # ts)" by blast+
  from ex0 c have ex: "\<exists>c'. map_of (errorCounters (snd (trackErrors source ts s1))) source = Some c'
                \<and> lastTime c' = last (t # ts)" by simp
  have "fst (trackErrors source (t # ts) s) = n # fst (trackErrors source ts s1)"
    using st by (simp split: prod.splits)
  also have "\<dots> = 1 # [Suc 1 ..< Suc 1 + length ts]"
    using n ih c(1) by simp
  also have "\<dots> = [1 ..< Suc (length (t # ts))]"
  proof -
    have "[1 ..< Suc (Suc (length ts))] = 1 # [Suc 1 ..< Suc (Suc (length ts))]"
      by (rule upt_conv_Cons) simp
    then show ?thesis by simp
  qed
  finally have a: "fst (trackErrors source (t # ts) s) = [1 ..< Suc (length (t # ts))]" .
  have sn: "snd (trackErrors source (t # ts) s) = snd (trackErrors source ts s1)"
    using st by (simp split: prod.splits)
  have b: "u - last (t # ts) > COUNTER_RESET_MS
            \<longrightarrow> fst (trackError source u (snd (trackErrors source (t # ts) s))) = 1"
  proof
    assume gt: "u - last (t # ts) > COUNTER_RESET_MS"
    from ex sn obtain c' where
      "map_of (errorCounters (snd (trackErrors source (t # ts) s))) source = Some c'"
      "lastTime c' = last (t # ts)" by auto
    with gt have "quiet source u (snd (trackErrors source (t # ts) s))"
      by (simp add: quiet_def)
    then show "fst (trackError source u (snd (trackErrors source (t # ts) s))) = 1"
      by (rule trackError_quiet(1))
  qed
  from a b show ?thesis by blast
qed

theorem trackError_counts_within_window_witness:
  "fst (trackErrors ''agent:conv1'' [1000, 2000, 62000] listener_init) = [1, 2, 3]
   \<and> fst (trackError ''agent:conv1'' 122001
            (snd (trackErrors ''agent:conv1'' [1000, 2000, 62000] listener_init))) = 1"
proof -
  have q: "quiet ''agent:conv1'' 1000 listener_init"
    by (simp add: quiet_def listener_init_def)
  have w: "within_window [1000, 2000, 62000]"
    by (simp add: COUNTER_RESET_MS_def)
  have g: "(122001::int) - last [1000, 2000, 62000] > COUNTER_RESET_MS"
    by (simp add: COUNTER_RESET_MS_def)
  have u: "[1 ..< Suc (length [1000, 2000, 62000::int])] = [1, 2, 3]"
    by (simp add: upt_rec)
  from trackError_counts_within_window [OF q w, of 122001] g u show ?thesis by simp
qed

lemma push_recent_take:
  "length evs \<le> MAX_RECENT_EVENTS \<Longrightarrow> push_recent e evs = take MAX_RECENT_EVENTS (e # evs)"
proof (cases "length evs = MAX_RECENT_EVENTS")
  case True
  then have "butlast (e # evs) = take MAX_RECENT_EVENTS (e # evs)"
    by (simp add: butlast_conv_take del: butlast.simps)
  with True show ?thesis by (simp add: push_recent_def Let_def del: butlast.simps take_Cons')
next
  case False
  assume "length evs \<le> MAX_RECENT_EVENTS"
  with False have "length (e # evs) \<le> MAX_RECENT_EVENTS" by simp
  then show ?thesis by (simp add: push_recent_def Let_def)
qed

lemma push_recent_full:
  "length evs = MAX_RECENT_EVENTS \<Longrightarrow> push_recent e evs = e # butlast evs"
  by (cases evs) (auto simp: push_recent_def Let_def MAX_RECENT_EVENTS_def)

lemma notify_keeps_recent:
  "\<forall>h\<in>set handlers. keeps_recent h \<Longrightarrow> recentEvents (notify handlers e s) = recentEvents s"
  by (induction handlers arbitrary: s) (auto simp: keeps_recent_def)

lemma emit_recent:
  assumes "\<forall>h\<in>set handlers. keeps_recent h"
  shows "recentEvents (emitHealthEvent handlers now type category source message data s)
         = push_recent \<lparr>ev_type = type, ev_category = category, ev_timestamp = now,
                  ev_source = source, ev_message = message, ev_data = data\<rparr> (recentEvents s)"
  using notify_keeps_recent [OF assms] by (simp add: emitHealthEvent_def Let_def)

lemma take_emitted_take: "take n (emitted cs (take n xs)) = take n (emitted cs xs)"
proof (induction cs arbitrary: xs)
  case Nil
  then show ?case by simp
next
  case (Cons c cs)
  show ?case
  proof (cases c)
    case (Emit now type category source message data)
    let ?e = "\<lparr>ev_type = type, ev_category = category, ev_timestamp = now,
                  ev_source = source, ev_message = message, ev_data = data\<rparr>"
    have t: "take n (?e # take n xs) = take n (?e # xs)" by (cases n) simp_all
    have "take n (emitted cs (?e # take n xs)) = take n (emitted cs (take n (?e # take n xs)))"
      by (rule Cons.IH [symmetric])
    also have "\<dots> = take n (emitted cs (take n (?e # xs)))" by (simp only: t)
    also have "\<dots> = take n (emitted cs (?e # xs))" by (rule Cons.IH)
    finally show ?thesis using Emit by simp
  next
    case ClearRecent
    then show ?thesis by simp
  qed
qed

lemma listener_run_recent:
  assumes "\<forall>h\<in>set handlers. keeps_recent h" "length (recentEvents s) \<le> MAX_RECENT_EVENTS"
  shows "recentEvents (listener_run handlers cs s)
         = take MAX_RECENT_EVENTS (emitted cs (recentEvents s))"
  using assms(2)
proof (induction cs arbitrary: s)
  case Nil
  then show ?case by simp
next
  case (Cons c cs)
  show ?case
  proof (cases c)
    case (Emit now type category source message data)
    let ?e = "\<lparr>ev_type = type, ev_category = category, ev_timestamp = now,
                  ev_source = source, ev_message = message, ev_data = data\<rparr>"
    let ?s1 = "listener_step handlers c s"
    have r1: "recentEvents ?s1 = take MAX_RECENT_EVENTS (?e # recentEvents s)"
      using Emit emit_recent [OF assms(1)] push_recent_take [OF Cons.prems] by simp
    then have "length (recentEvents ?s1) \<le> MAX_RECENT_EVENTS" by simp
    from Cons.IH [OF this]
    have "recentEvents (listener_run handlers cs ?s1)
          = take MAX_RECENT_EVENTS (emitted cs (take MAX_RECENT_EVENTS (?e # recentEvents s)))"
      by (simp only: r1)
    also have "\<dots> = take MAX_RECENT_EVENTS (emitted cs (?e # recentEvents s))"
      by (rule take_emitted_take)
    finally show ?thesis using Emit by simp
  next
    case ClearRecent
    have "length (recentEvents (clearRecentEvents s)) \<le> MAX_RECENT_EVENTS"
      by (simp add: clearRecentEvents_def)
    from Cons.IH [OF this] ClearRecent show ?thesis
      by (simp add: clearRecentEvents_def)
  qed
qed

text \<open>
  C9. After any sequence of \<^verbatim>\<open>emitHealthEvent\<close> and \<^verbatim>\<open>clearRecentEvents\<close> calls the
  recent-events buffer holds at most 50 events: the 50 most recent ones emitted since the
  last clear, newest first. An emit into a full buffer inserts the new event and drops
  the oldest. (Handlers reach the buffer only through these two functions.)
\<close>

theorem recentEvents_bounded_most_recent:
  assumes "\<forall>h\<in>set handlers. keeps_recent h"
  shows "length (getRecentEvents (listener_run handlers cs listener_init)) \<le> MAX_RECENT_EVENTS
         \<and> getRecentEvents (listener_run handlers cs listener_init)
             = take MAX_RECENT_EVENTS (emitted cs [])
         \<and> (length (getRecentEvents s) = MAX_RECENT_EVENTS \<longrightarrow>
              getRecentEvents (emitHealthEvent handlers now type category source message data s)
              = \<lparr>ev_type = type, ev_category = category, ev_timestamp = now,
                  ev_source = source, ev_message = message, ev_data = data\<rparr>
                # butlast (getRecentEvents s))"
proof -
  have "length (recentEvents listener_init) \<le> MAX_RECENT_EVENTS"
    by (simp add: listener_init_def)
  from listener_run_recent [OF assms this]
  have a: "recentEvents (listener_run handlers cs listener_init)
             = take MAX_RECENT_EVENTS (emitted cs [])"
    by (simp add: listener_init_def)
  then have b: "length (recentEvents (listener_run handlers cs listener_init)) \<le> MAX_RECENT_EVENTS"
    by simp
  have c: "length (recentEvents s) = MAX_RECENT_EVENTS \<longrightarrow>
      recentEvents (emitHealthEvent handlers now type category source message data s)
      = \<lparr>ev_type = type, ev_category = category, ev_timestamp = now,
          ev_source = source, ev_message = message, ev_data = data\<rparr> # butlast (recentEvents s)"
    using emit_recent [OF assms] push_recent_full by simp
  from a b c show ?thesis by (simp add: getRecentEvents_def)
qed

theorem recentEvents_bounded_most_recent_witness:
  "getRecentEvents
     (listener_run [\<lambda>event s. snd (trackError (ev_source event) (ev_timestamp event) s)]
        [Emit 1 agent_error CatWarning ''agent:a'' ''boom'' None, ClearRecent,
         Emit 2 process_exit CatCritical ''p1'' ''exit'' None,
         Emit 3 renderer_crash CatCritical ''renderer'' ''crash'' None]
        listener_init)
   = [\<lparr>ev_type = renderer_crash, ev_category = CatCritical, ev_timestamp = 3,
       ev_source = ''renderer'', ev_message = ''crash'', ev_data = None\<rparr>,
      \<lparr>ev_type = process_exit, ev_category = CatCritical, ev_timestamp = 2,
       ev_source = ''p1'', ev_message = ''exit'', ev_data = None\<rparr>]
   \<and> getRecentEvents
       (emitHealthEvent [\<lambda>event s. snd (trackError (ev_source event) (ev_timestamp event) s)]
          9 config_change CatInfo ''config'' ''changed'' None
          \<lparr>recentEvents = replicate 50 ev0, errorCounters = []\<rparr>)
     = \<lparr>ev_type = config_change, ev_category = CatInfo, ev_timestamp = 9,
        ev_source = ''config'', ev_message = ''changed'', ev_data = None\<rparr>
       # replicate 49 ev0"
proof -
  let ?h = "\<lambda>event s. snd (trackError (ev_source event) (ev_timestamp event) s)"
  have k: "\<forall>h\<in>set [?h]. keeps_recent h"
    by (simp add: keeps_recent_def trackError_def Let_def split: option.splits)
  have l: "length (getRecentEvents \<lparr>recentEvents = replicate 50 ev0, errorCounters = []\<rparr>)
           = MAX_RECENT_EVENTS"
    by (simp add: getRecentEvents_def MAX_RECENT_EVENTS_def)
  have bl: "butlast (replicate 50 ev0) = replicate 49 ev0"
    by (simp add: butlast_conv_take)
  from recentEvents_bounded_most_recent [OF k,
      of "[Emit 1 agent_error CatWarning ''agent:a'' ''boom'' None, ClearRecent,
         Emit 2 process_exit CatCritical ''p1'' ''exit'' None,
         Emit 3 renderer_crash CatCritical ''renderer'' ''crash'' None]"
      "\<lparr>recentEvents = replicate 50 ev0, errorCounters = []\<rparr>"
      9 config_change CatInfo "''config''" "''changed''" None] l bl
  show ?thesis by (simp add: getRecentEvents_def MAX_RECENT_EVENTS_def)
qed

section \<open>Verification: strategy selection\<close>

lemma startsWith_iff: "startsWith s sub \<longleftrightarrow> (\<exists>q. s = sub @ q)"
  by (induction s sub rule: startsWith.induct) auto

lemma includes_str_iff: "includes_str s sub \<longleftrightarrow> (\<exists>p q. s = p @ sub @ q)"
proof (induction s)
  case Nil
  then show ?case by (auto simp: startsWith_iff)
next
  case (Cons d ds)
  show ?case
  proof
    assume "includes_str (d # ds) sub"
    then consider "startsWith (d # ds) sub" | "includes_str ds sub" by auto
    then show "\<exists>p q. d # ds = p @ sub @ q"
    proof cases
      case 1
      then obtain q where "d # ds = sub @ q" by (auto simp: startsWith_iff)
      then have "d # ds = [] @ sub @ q" by simp
      then show ?thesis by blast
    next
      case 2
      then obtain p q where "ds = p @ sub @ q" using Cons.IH by auto
      then have "d # ds = (d # p) @ sub @ q" by simp
      then show ?thesis by blast
    qed
  next
    assume "\<exists>p q. d # ds = p @ sub @ q"
    then obtain p q where pq: "d # ds = p @ sub @ q" by blast
    show "includes_str (d # ds) sub"
    proof (cases p)
      case Nil
      then have "startsWith (d # ds) sub" using pq startsWith_iff [of "d # ds" sub] by auto
      then show ?thesis by simp
    next
      case (Cons a p')
      then have "ds = p' @ sub @ q" using pq by simp
      then show ?thesis using Cons.IH by auto
    qed
  qed
qed

text \<open>
  C5. \<^verbatim>\<open>selectRecoveryStrategy\<close> returns S3 whenever the count is at least 5, whatever
  the source; S2 whenever the count is 3 or 4 and the source contains \<^verbatim>\<open>agent\<close> or
  \<^verbatim>\<open>session\<close>; and \<^verbatim>\<open>null\<close> otherwise. For count 5 and source \<^verbatim>\<open>agent:conv1\<close> it
  returns S3, not S2.
\<close>

theorem selectRecoveryStrategy_thresholds:
  "(errorCount \<ge> 5 \<longrightarrow> selectRecoveryStrategy errorCount source = Some S3)
   \<and> (3 \<le> errorCount \<and> errorCount < 5
        \<and> (includes_str source ''agent'' \<or> includes_str source ''session'')
      \<longrightarrow> selectRecoveryStrategy errorCount source = Some S2)
   \<and> (\<not> errorCount \<ge> 5
        \<and> \<not> (3 \<le> errorCount \<and> errorCount < 5
              \<and> (includes_str source ''agent'' \<or> includes_str source ''session''))
      \<longrightarrow> selectRecoveryStrategy errorCount source = None)
   \<and> selectRecoveryStrategy 5 ''agent:conv1'' = Some S3"
  by (auto simp: selectRecoveryStrategy_def AGENT_RESET_def APP_RESTART_def)

theorem selectRecoveryStrategy_thresholds_witness:
  "selectRecoveryStrategy 7 ''renderer'' = Some S3
   \<and> selectRecoveryStrategy 3 ''agent:conv1'' = Some S2
   \<and> selectRecoveryStrategy 4 ''my-session'' = Some S2
   \<and> selectRecoveryStrategy 4 ''renderer'' = None
   \<and> selectRecoveryStrategy 2 ''agent:conv1'' = None"
  using selectRecoveryStrategy_thresholds [of 7 "''renderer''"]
    selectRecoveryStrategy_thresholds [of 3 "''agent:conv1''"]
    selectRecoveryStrategy_thresholds [of 4 "''my-session''"]
    selectRecoveryStrategy_thresholds [of 4 "''renderer''"]
    selectRecoveryStrategy_thresholds [of 2 "''agent:conv1''"]
  by simp

section \<open>Verification: process registry\<close>

text \<open>The state after a first start and one registration.\<close>

lemma running_state_eq:
  "running_state =
     \<lparr>currentInstanceId = ''old'', previousInstanceId = None,
      registryCache = Some old_registry, fs = Dir (Stored old_registry)\<rparr>"
  by (simp add: running_state_def registerProcess_def markInstanceStart_def Let_def
      registry_init_def read_registry_def ensure_dir_def write_registry_def loadRegistry_def
      saveRegistry_def mutate_def old_registry_def old_entry_def)












lemma findIndex_None: "findIndex P xs = None \<longleftrightarrow> \<not> list_ex P xs"
  by (induction xs) (auto split: option.splits)

lemma findIndex_snoc:
  "\<not> list_ex P xs \<Longrightarrow> P x \<Longrightarrow> findIndex P (xs @ [x]) = Some (length xs)"
  by (induction xs) (auto split: option.splits)

lemma loadRegistry_None: "fst (loadRegistry s) = None \<Longrightarrow> loadRegistry s = (None, s)"
  by (auto simp: loadRegistry_def split: option.splits sum.splits)

lemma loadRegistry_Some:
  "fst (loadRegistry s) = Some r \<Longrightarrow>
     loadRegistry s = (Some r, snd (loadRegistry s)) \<and> registryCache (snd (loadRegistry s)) = Some r"
  by (auto simp: loadRegistry_def split: option.splits sum.splits)

lemma loadRegistry_cached: "registryCache s = Some r \<Longrightarrow> loadRegistry s = (Some r, s)"
  by (simp add: loadRegistry_def)

lemma saved_cache: "registryCache (saveRegistry w r (mutate r s)) = Some r"
  by (simp add: saveRegistry_def mutate_def split: prod.splits bool.splits)

lemma register_unregister_fresh:
  assumes "\<not> registered (pe_id entry) (pe_type entry) s"
  shows "process_list (unregisterProcess (pe_id entry) (pe_type entry) w2
           (registerProcess entry now w1 s)) = process_list s"
proof (cases "fst (loadRegistry s)")
  case None
  from loadRegistry_None [OF this] show ?thesis
    by (simp add: registerProcess_def unregisterProcess_def)
next
  case (Some r)
  let ?P = "\<lambda>p. pe_id p = pe_id entry \<and> pe_type p = pe_type entry"
  obtain s1 where l: "loadRegistry s = (Some r, s1)"
    using Some by (cases "loadRegistry s") simp
  let ?new = "entry\<lparr>pe_lastHeartbeat := now\<rparr>"
  let ?r1 = "r\<lparr>processes := processes r @ [?new]\<rparr>"
  let ?s2 = "saveRegistry w1 ?r1 (mutate ?r1 s1)"
  let ?r2 = "?r1\<lparr>processes := processes r\<rparr>"
  from Some have pl: "process_list s = processes r" by (simp add: process_list_def)
  with assms have nx: "\<not> list_ex ?P (processes r)" by (simp add: registered_def)
  then have fi: "findIndex ?P (processes r) = None" by (simp add: findIndex_None)
  have reg: "registerProcess entry now w1 s = ?s2"
    using l fi by (simp add: registerProcess_def Let_def)
  have l2: "loadRegistry ?s2 = (Some ?r1, ?s2)"
    by (rule loadRegistry_cached) (rule saved_cache)
  have fi2: "findIndex ?P (processes ?r1) = Some (length (processes r))"
    using findIndex_snoc [OF nx, of ?new] by simp
  have unreg: "unregisterProcess (pe_id entry) (pe_type entry) w2 ?s2
               = saveRegistry w2 ?r2 (mutate ?r2 ?s2)"
    using l2 fi2 by (simp add: unregisterProcess_def Let_def)
  have "process_list (saveRegistry w2 ?r2 (mutate ?r2 ?s2)) = processes ?r2"
    using loadRegistry_cached [OF saved_cache, of w2 ?r2 ?s2] by (simp add: process_list_def)
  with reg unreg pl show ?thesis by simp
qed

text \<open>
  C6 (amended). For every \<^verbatim>\<open>(id, type)\<close> that has no entry in the registry,
  \<^verbatim>\<open>registerProcess\<close> with that pair followed by \<^verbatim>\<open>unregisterProcess(id, type)\<close> leaves
  the registry's process list as it was before the registration.
\<close>

theorem register_unregister_restores_list:
  "\<not> registered (pe_id entry) (pe_type entry) s
     \<longrightarrow> process_list (unregisterProcess (pe_id entry) (pe_type entry) w2
           (registerProcess entry now w1 s)) = process_list s"
  using register_unregister_fresh by blast

text \<open>
  C6 as stated fails for a pair that is registered already: the registration replaces
  the entry, the unregistration removes it, and the list has lost an entry.
\<close>

theorem register_unregister_counterexample:
  "process_list running_state = [old_entry]
   \<and> process_list (unregisterProcess ''conv1'' V2Session Written
        (registerProcess (old_entry\<lparr>pe_pid := Some 5000\<rparr>) 40 Written running_state)) = []"
  by (simp add: running_state_eq process_list_def registerProcess_def unregisterProcess_def
      Let_def loadRegistry_def saveRegistry_def mutate_def write_registry_def
      old_registry_def old_entry_def)

theorem register_unregister_restores_list_witness:
  "process_list (unregisterProcess ''tunnel-1'' Tunnel Written
        (registerProcess \<lparr>pe_id = ''tunnel-1'', pe_pid = None, pe_type = Tunnel,
            pe_instanceId = ''old'', pe_startedAt = 40, pe_lastHeartbeat = 0\<rparr> 40 Written
           running_state)) = process_list running_state"
proof -
  have "\<not> registered ''tunnel-1'' Tunnel running_state"
    by (simp add: registered_def process_list_def running_state_eq loadRegistry_def
        old_registry_def old_entry_def)
  with register_unregister_restores_list
    [of "\<lparr>pe_id = ''tunnel-1'', pe_pid = None, pe_type = Tunnel,
            pe_instanceId = ''old'', pe_startedAt = 40, pe_lastHeartbeat = 0\<rparr>"
        running_state Written 40 Written]
  show ?thesis by simp
qed

section \<open>Verification: recovery executor\<close>

lemma executeStrategy_keeps:
  "recentRecoveryAttempts (snd (executeStrategy sid env w)) = recentRecoveryAttempts w
   \<and> lastRecoveryTime (snd (executeStrategy sid env w)) = lastRecoveryTime w"
  by (cases sid)
    (auto simp: executeS1_def executeS2_def executeS3_def executeS4_def closeAllSessions_def
      cleanupOrphans_def recoverySuccess_def Let_def split: option.splits prod.splits)

lemma executeStrategy_ran: "ran (fst (executeStrategy sid env w))"
  by (cases sid)
    (auto simp: executeS1_def executeS2_def executeS3_def executeS4_def closeAllSessions_def
      cleanupOrphans_def recoverySuccess_def Let_def ran_def rate_limited_def consent_refused_def
      failed_def split: option.splits prod.splits)


lemma executeRecovery_limited:
  assumes "passes_consent (sid, b, env)"
    and "env_now env - lastRecoveryTime w < RECOVERY_COOLDOWN_MS"
    and "recentRecoveryAttempts w \<ge> MAX_RECOVERY_ATTEMPTS"
  shows "executeRecovery sid b env w
         = (failed sid ''Recovery rate limit exceeded'' (env_now env),
            w\<lparr>recentRecoveryAttempts := recentRecoveryAttempts w + 1\<rparr>)"
  using assms
  by (auto simp: executeRecovery_def Let_def passes_consent_def requiresConsent_def
      getStrategy_def)

lemma failed_not_ran: "\<not> ran (failed sid ''Recovery rate limit exceeded'' t)"
  by (simp add: ran_def rate_limited_def failed_def)

lemma executeRecovery_in_window:
  assumes "passes_consent (sid, b, env)"
    and "env_now env - lastRecoveryTime w < RECOVERY_COOLDOWN_MS"
    and "recentRecoveryAttempts w < MAX_RECOVERY_ATTEMPTS"
  shows "executeRecovery sid b env w
         = executeStrategy sid env
             (w\<lparr>recentRecoveryAttempts := recentRecoveryAttempts w + 1,
                lastRecoveryTime := env_now env\<rparr>)"
  using assms
  by (auto simp: executeRecovery_def Let_def passes_consent_def requiresConsent_def
      getStrategy_def)

lemma executeRecovery_new_window:
  assumes "passes_consent (sid, b, env)"
    and "\<not> env_now env - lastRecoveryTime w < RECOVERY_COOLDOWN_MS"
  shows "executeRecovery sid b env w
         = executeStrategy sid env
             (w\<lparr>recentRecoveryAttempts := 1, lastRecoveryTime := env_now env\<rparr>)"
  using assms
  by (auto simp: executeRecovery_def Let_def passes_consent_def requiresConsent_def
      getStrategy_def)

text \<open>What one call that passes the consent check does to the limiter.\<close>

lemma executeRecovery_ran_cases:
  assumes "passes_consent (sid, b, env)"
  shows "(if env_now env - lastRecoveryTime w < RECOVERY_COOLDOWN_MS
             \<and> recentRecoveryAttempts w \<ge> MAX_RECOVERY_ATTEMPTS
          then \<not> ran (fst (executeRecovery sid b env w))
             \<and> lastRecoveryTime (snd (executeRecovery sid b env w)) = lastRecoveryTime w
             \<and> recentRecoveryAttempts (snd (executeRecovery sid b env w))
                 = recentRecoveryAttempts w + 1
          else ran (fst (executeRecovery sid b env w))
             \<and> lastRecoveryTime (snd (executeRecovery sid b env w)) = env_now env
             \<and> recentRecoveryAttempts (snd (executeRecovery sid b env w)) \<ge> 1
             \<and> (env_now env - lastRecoveryTime w < RECOVERY_COOLDOWN_MS \<longrightarrow>
                  recentRecoveryAttempts (snd (executeRecovery sid b env w))
                  = recentRecoveryAttempts w + 1))"
proof (cases "env_now env - lastRecoveryTime w < RECOVERY_COOLDOWN_MS")
  case False
  from executeRecovery_new_window [OF assms False] False show ?thesis
    by (simp add: executeStrategy_keeps executeStrategy_ran)
next
  case True
  show ?thesis
  proof (cases "recentRecoveryAttempts w \<ge> MAX_RECOVERY_ATTEMPTS")
    case True
    from executeRecovery_limited [OF assms \<open>env_now env - lastRecoveryTime w < RECOVERY_COOLDOWN_MS\<close> True]
      True \<open>env_now env - lastRecoveryTime w < RECOVERY_COOLDOWN_MS\<close>
    show ?thesis by (simp add: failed_not_ran)
  next
    case False
    then have "recentRecoveryAttempts w < MAX_RECOVERY_ATTEMPTS" by simp
    from executeRecovery_in_window [OF assms True this] True False show ?thesis
      by (simp add: executeStrategy_keeps executeStrategy_ran)
  qed
qed

lemma run_Cons:
  "executeRecoveries (c # cs) w =
     (fst (executeRecovery (fst c) (fst (snd c)) (snd (snd c)) w)
        # fst (executeRecoveries cs (snd (executeRecovery (fst c) (fst (snd c)) (snd (snd c)) w))),
      snd (executeRecoveries cs (snd (executeRecovery (fst c) (fst (snd c)) (snd (snd c)) w))))"
  by (cases c) (auto split: prod.splits)

lemma run_snoc:
  "executeRecoveries (cs @ [c]) w =
     (fst (executeRecoveries cs w)
        @ [fst (executeRecovery (fst c) (fst (snd c)) (snd (snd c)) (snd (executeRecoveries cs w)))],
      snd (executeRecovery (fst c) (fst (snd c)) (snd (snd c)) (snd (executeRecoveries cs w))))"
proof (induction cs arbitrary: w)
  case Nil
  show ?case by (simp add: run_Cons)
next
  case (Cons a cs)
  show ?case by (simp add: run_Cons Cons.IH)
qed

text \<open>
  While every call comes less than the cooldown after the last run and after each
  other, at most \<open>3 - attempts\<close> of them run.
\<close>

lemma count_after_run:
  assumes "list_all passes_consent cs"
    and "\<forall>c\<in>set cs. \<forall>d\<in>set cs. call_time d - call_time c < RECOVERY_COOLDOWN_MS"
    and "\<forall>c\<in>set cs. call_time c - lastRecoveryTime w < RECOVERY_COOLDOWN_MS"
  shows "length (filter ran (fst (executeRecoveries cs w)))
         \<le> MAX_RECOVERY_ATTEMPTS - recentRecoveryAttempts w"
  using assms
proof (induction cs arbitrary: w)
  case Nil
  then show ?case by simp
next
  case (Cons c cs)
  obtain sid b env where c: "c = (sid, b, env)" by (cases c)
  let ?r = "fst (executeRecovery sid b env w)"
  let ?w1 = "snd (executeRecovery sid b env w)"
  from Cons.prems(1) c have pc: "passes_consent (sid, b, env)" and pcs: "list_all passes_consent cs"
    by simp_all
  from Cons.prems(2) have win: "\<forall>c\<in>set cs. \<forall>d\<in>set cs. call_time d - call_time c < RECOVERY_COOLDOWN_MS"
    and win1: "\<forall>d\<in>set cs. call_time d - call_time c < RECOVERY_COOLDOWN_MS" by simp_all
  from Cons.prems(3) c have inw: "env_now env - lastRecoveryTime w < RECOVERY_COOLDOWN_MS"
    and rest: "\<forall>c'\<in>set cs. call_time c' - lastRecoveryTime w < RECOVERY_COOLDOWN_MS"
    by (simp_all add: call_time_def)
  have eq: "fst (executeRecoveries (c # cs) w) = ?r # fst (executeRecoveries cs ?w1)"
    using c by (simp add: run_Cons)
  show ?case
  proof (cases "recentRecoveryAttempts w \<ge> MAX_RECOVERY_ATTEMPTS")
    case True
    with executeRecovery_ran_cases [OF pc, of w] inw
    have nr: "\<not> ran ?r" and l1: "lastRecoveryTime ?w1 = lastRecoveryTime w"
      and a1: "recentRecoveryAttempts ?w1 = recentRecoveryAttempts w + 1" by simp_all
    from rest l1 have r1: "\<forall>c'\<in>set cs. call_time c' - lastRecoveryTime ?w1 < RECOVERY_COOLDOWN_MS"
      by simp
    from Cons.IH [OF pcs win r1] a1 nr eq show ?thesis by auto
  next
    case False
    with executeRecovery_ran_cases [OF pc, of w] inw
    have l1: "lastRecoveryTime ?w1 = env_now env"
      and a1: "recentRecoveryAttempts ?w1 = recentRecoveryAttempts w + 1" by simp_all
    from win1 l1 c have r1: "\<forall>c'\<in>set cs. call_time c' - lastRecoveryTime ?w1 < RECOVERY_COOLDOWN_MS"
      by (simp add: call_time_def)
    from Cons.IH [OF pcs win r1] a1 False eq show ?thesis by auto
  qed
qed

text \<open>Of calls made less than the cooldown apart, at most three run a strategy.\<close>

lemma count_in_window:
  assumes "list_all passes_consent cs"
    and "\<forall>c\<in>set cs. \<forall>d\<in>set cs. call_time d - call_time c < RECOVERY_COOLDOWN_MS"
  shows "length (filter ran (fst (executeRecoveries cs w))) \<le> MAX_RECOVERY_ATTEMPTS"
  using assms
proof (induction cs arbitrary: w)
  case Nil
  then show ?case by simp
next
  case (Cons c cs)
  obtain sid b env where c: "c = (sid, b, env)" by (cases c)
  let ?r = "fst (executeRecovery sid b env w)"
  let ?w1 = "snd (executeRecovery sid b env w)"
  from Cons.prems(1) c have pc: "passes_consent (sid, b, env)" and pcs: "list_all passes_consent cs"
    by simp_all
  from Cons.prems(2) have win: "\<forall>c\<in>set cs. \<forall>d\<in>set cs. call_time d - call_time c < RECOVERY_COOLDOWN_MS"
    and win1: "\<forall>d\<in>set cs. call_time d - call_time c < RECOVERY_COOLDOWN_MS" by simp_all
  have eq: "fst (executeRecoveries (c # cs) w) = ?r # fst (executeRecoveries cs ?w1)"
    using c by (simp add: run_Cons)
  show ?case
  proof (cases "ran ?r")
    case False
    with Cons.IH [OF pcs win, of ?w1] eq show ?thesis by simp
  next
    case True
    with executeRecovery_ran_cases [OF pc, of w]
    have l1: "lastRecoveryTime ?w1 = env_now env" and a1: "recentRecoveryAttempts ?w1 \<ge> 1"
      by (auto split: if_splits)
    from win1 l1 c have r1: "\<forall>c'\<in>set cs. call_time c' - lastRecoveryTime ?w1 < RECOVERY_COOLDOWN_MS"
      by (simp add: call_time_def)
    from count_after_run [OF pcs win r1] a1 eq True show ?thesis
      by (simp add: MAX_RECOVERY_ATTEMPTS_def)
  qed
qed

text \<open>
  C3 (amended). For calls of \<^verbatim>\<open>executeRecovery\<close> that pass the consent check and come
  less than 30 s from one another: once three of them have run their strategy, the next
  one returns \<^verbatim>\<open>{success: false}\<close> with the rate-limit message and executes no strategy
  action; only the attempt counter changes. Calls that the limiter refused do not count
  towards the three.
\<close>

theorem recovery_rate_limit:
  assumes "list_all passes_consent (cs @ [(sid, b, env)])"
    and "\<forall>c\<in>set (cs @ [(sid, b, env)]). \<forall>d\<in>set (cs @ [(sid, b, env)]).
           call_time d - call_time c < RECOVERY_COOLDOWN_MS"
    and "length (filter ran (fst (executeRecoveries cs w))) \<ge> MAX_RECOVERY_ATTEMPTS"
  shows "executeRecovery sid b env (snd (executeRecoveries cs w))
         = (failed sid ''Recovery rate limit exceeded'' (env_now env),
            (snd (executeRecoveries cs w))
              \<lparr>recentRecoveryAttempts :=
                 recentRecoveryAttempts (snd (executeRecoveries cs w)) + 1\<rparr>)"
proof -
  let ?w1 = "snd (executeRecoveries cs w)"
  let ?r = "fst (executeRecovery sid b env ?w1)"
  from assms(1) have pc: "passes_consent (sid, b, env)" by simp
  have "fst (executeRecoveries (cs @ [(sid, b, env)]) w) = fst (executeRecoveries cs w) @ [?r]"
    by (simp add: run_snoc)
  with count_in_window [OF assms(1) assms(2), of w]
  have "length (filter ran (fst (executeRecoveries cs w))) + length (filter ran [?r])
        \<le> MAX_RECOVERY_ATTEMPTS" by simp
  with assms(3) have nr: "\<not> ran ?r" by (auto split: if_splits)
  with executeRecovery_ran_cases [OF pc, of ?w1]
  have "env_now env - lastRecoveryTime ?w1 < RECOVERY_COOLDOWN_MS"
    and "recentRecoveryAttempts ?w1 \<ge> MAX_RECOVERY_ATTEMPTS"
    by (auto split: if_splits)
  from executeRecovery_limited [OF pc this] show ?thesis .
qed

lemma S1_step:
  "executeRecovery S1 False (env_at t) w
   = (if t - lastRecoveryTime w < 30000 \<and> 3 \<le> recentRecoveryAttempts w
      then (failed S1 ''Recovery rate limit exceeded'' t,
            w\<lparr>recentRecoveryAttempts := recentRecoveryAttempts w + 1\<rparr>)
      else (\<lparr>rr_strategyId = S1, rr_success = True,
             rr_message = ''Process will be recreated on next use'',
             rr_timestamp = t, rr_data = None\<rparr>,
            w\<lparr>recentRecoveryAttempts :=
                 (if t - lastRecoveryTime w < 30000 then recentRecoveryAttempts w + 1 else 1),
               lastRecoveryTime := t,
               listener := emitRecoverySuccess [] t ''S1''
                  ''Process marked for restart on next use'' (listener w)\<rparr>))"
  by (auto simp: executeRecovery_def Let_def getStrategy_def env_at_def executeS1_def
      recoverySuccess_def RECOVERY_COOLDOWN_MS_def MAX_RECOVERY_ATTEMPTS_def)

lemma three_runs_result:
  "map rr_success (fst (executeRecoveries three_runs ready_world)) = [True, True, True]
   \<and> recentRecoveryAttempts (snd (executeRecoveries three_runs ready_world)) = 3
   \<and> lastRecoveryTime (snd (executeRecoveries three_runs ready_world)) = T0 + 2000
   \<and> effects (snd (executeRecoveries three_runs ready_world)) = []
   \<and> closeAllSessionsFn (snd (executeRecoveries three_runs ready_world))"
  by (simp add: three_runs_def ready_world_def injectSessionCleanup_def world_init_def
      S1_step T0_def)


lemma ran_S1: "ran \<lparr>rr_strategyId = S1, rr_success = True, rr_message = m, rr_timestamp = t, rr_data = d\<rparr>"
  by (simp add: ran_def rate_limited_def consent_refused_def)

theorem recovery_rate_limit_witness:
  "executeRecovery S2 False (env_at (T0 + 3000)) (snd (executeRecoveries three_runs ready_world))
   = (failed S2 ''Recovery rate limit exceeded'' (T0 + 3000),
      (snd (executeRecoveries three_runs ready_world))\<lparr>recentRecoveryAttempts := 4\<rparr>)"
proof -
  have p: "list_all passes_consent (three_runs @ [(S2, False, env_at (T0 + 3000))])"
    by (simp add: three_runs_def passes_consent_def requiresConsent_def)
  have w: "\<forall>c\<in>set (three_runs @ [(S2, False, env_at (T0 + 3000))]).
           \<forall>d\<in>set (three_runs @ [(S2, False, env_at (T0 + 3000))]).
             call_time d - call_time c < RECOVERY_COOLDOWN_MS"
    by (simp add: three_runs_def call_time_def env_at_def RECOVERY_COOLDOWN_MS_def)
  have "fst (executeRecoveries three_runs ready_world)
        = [\<lparr>rr_strategyId = S1, rr_success = True,
             rr_message = ''Process will be recreated on next use'',
             rr_timestamp = T0, rr_data = None\<rparr>,
           \<lparr>rr_strategyId = S1, rr_success = True,
             rr_message = ''Process will be recreated on next use'',
             rr_timestamp = T0 + 1000, rr_data = None\<rparr>,
           \<lparr>rr_strategyId = S1, rr_success = True,
             rr_message = ''Process will be recreated on next use'',
             rr_timestamp = T0 + 2000, rr_data = None\<rparr>]"
    by (simp add: three_runs_def ready_world_def injectSessionCleanup_def world_init_def
        S1_step T0_def)
  then have n: "length (filter ran (fst (executeRecoveries three_runs ready_world)))
             \<ge> MAX_RECOVERY_ATTEMPTS"
    by (simp add: ran_S1 MAX_RECOVERY_ATTEMPTS_def)
  from recovery_rate_limit [OF p w n] three_runs_result show ?thesis
    by (simp add: env_at_def)
qed

text \<open>
  C3 as stated fails: the calls at 69 s, 70 s, 71 s and 72 s pass the consent check and
  lie within 3 s, yet the fourth of them runs its strategy. The call at 69 s was refused
  (it came 29 s after the third run), and the call at 70 s, 30 s after that run, opened a
  new count.
\<close>

theorem recovery_rate_limit_counterexample:
  "map (\<lambda>r. (rr_success r, rr_message r)) (fst (executeRecoveries seven_calls ready_world))
   = [(True, ''Process will be recreated on next use''),
      (True, ''Process will be recreated on next use''),
      (True, ''Process will be recreated on next use''),
      (False, ''Recovery rate limit exceeded''),
      (True, ''Process will be recreated on next use''),
      (True, ''Process will be recreated on next use''),
      (True, ''Process will be recreated on next use'')]
   \<and> map call_time (drop 3 seven_calls) = [T0 + 69000, T0 + 70000, T0 + 71000, T0 + 72000]
   \<and> list_all passes_consent seven_calls"
proof -
  have a: "map (\<lambda>r. (rr_success r, rr_message r)) (fst (executeRecoveries seven_calls ready_world))
   = [(True, ''Process will be recreated on next use''),
      (True, ''Process will be recreated on next use''),
      (True, ''Process will be recreated on next use''),
      (False, ''Recovery rate limit exceeded''),
      (True, ''Process will be recreated on next use''),
      (True, ''Process will be recreated on next use''),
      (True, ''Process will be recreated on next use'')]"
    by (simp add: seven_calls_def ready_world_def injectSessionCleanup_def world_init_def
        S1_step T0_def failed_def)
  have b: "map call_time (drop 3 seven_calls) = [T0 + 69000, T0 + 70000, T0 + 71000, T0 + 72000]"
    by (simp add: seven_calls_def call_time_def env_at_def)
  have c: "list_all passes_consent seven_calls"
    by (simp add: seven_calls_def passes_consent_def requiresConsent_def)
  from a b c show ?thesis by blast
qed

text \<open>
  C2 (amended). The strategies that require consent are S3 and S4. For them,
  \<^verbatim>\<open>executeRecovery(strategyId, false)\<close> returns the failure "User consent required" and
  leaves the whole state as it was, and \<^verbatim>\<open>executeRecovery(strategyId, true)\<close> passes the
  consent check: it runs the strategy body unless the rate limiter refuses the call.
\<close>

theorem consent_gate:
  "(requiresConsent strategyId \<longleftrightarrow> strategyId = S3 \<or> strategyId = S4)
   \<and> (requiresConsent strategyId \<longrightarrow>
        executeRecovery strategyId False env w
          = (failed strategyId ''User consent required'' (env_now env), w)
        \<and> executeRecovery strategyId True env w
          = (if env_now env - lastRecoveryTime w < RECOVERY_COOLDOWN_MS
                \<and> MAX_RECOVERY_ATTEMPTS \<le> recentRecoveryAttempts w
             then (failed strategyId ''Recovery rate limit exceeded'' (env_now env),
                   w\<lparr>recentRecoveryAttempts := recentRecoveryAttempts w + 1\<rparr>)
             else executeStrategy strategyId env
                    (w\<lparr>recentRecoveryAttempts :=
                         (if env_now env - lastRecoveryTime w < RECOVERY_COOLDOWN_MS
                          then recentRecoveryAttempts w + 1 else 1),
                       lastRecoveryTime := env_now env\<rparr>)))"
proof -
  have a: "requiresConsent strategyId \<longleftrightarrow> strategyId = S3 \<or> strategyId = S4"
    by (cases strategyId) (simp_all add: requiresConsent_def)
  have b: "requiresConsent strategyId \<longrightarrow>
        executeRecovery strategyId False env w
          = (failed strategyId ''User consent required'' (env_now env), w)"
    by (simp add: executeRecovery_def Let_def getStrategy_def requiresConsent_def)
  have c: "executeRecovery strategyId True env w
          = (if env_now env - lastRecoveryTime w < RECOVERY_COOLDOWN_MS
                \<and> MAX_RECOVERY_ATTEMPTS \<le> recentRecoveryAttempts w
             then (failed strategyId ''Recovery rate limit exceeded'' (env_now env),
                   w\<lparr>recentRecoveryAttempts := recentRecoveryAttempts w + 1\<rparr>)
             else executeStrategy strategyId env
                    (w\<lparr>recentRecoveryAttempts :=
                         (if env_now env - lastRecoveryTime w < RECOVERY_COOLDOWN_MS
                          then recentRecoveryAttempts w + 1 else 1),
                       lastRecoveryTime := env_now env\<rparr>))"
    by (auto simp: executeRecovery_def Let_def)
  from a b c show ?thesis by blast
qed

theorem consent_gate_witness:
  "executeRecovery S3 False (env_at T0) ready_world
     = (failed S3 ''User consent required'' T0, ready_world)
   \<and> rr_success (fst (executeRecovery S3 True (env_at T0) ready_world))
   \<and> effects (snd (executeRecovery S3 True (env_at T0) ready_world))
       = [CloseAllSessions, ScheduleRelaunch]
   \<and> executeRecovery S4 False (env_at T0) ready_world
     = (failed S4 ''User consent required'' T0, ready_world)
   \<and> rr_success (fst (executeRecovery S4 True (env_at T0) ready_world))
   \<and> effects (snd (executeRecovery S4 True (env_at T0) ready_world))
       = [CloseAllSessions, CleanupOrphans, ScheduleRelaunch]"
proof -
  have r3: "requiresConsent S3" and r4: "requiresConsent S4"
    by (simp_all add: requiresConsent_def)
  have t: "\<not> (env_now (env_at T0) - lastRecoveryTime ready_world < RECOVERY_COOLDOWN_MS
              \<and> MAX_RECOVERY_ATTEMPTS \<le> recentRecoveryAttempts ready_world)"
    by (simp add: env_at_def ready_world_def injectSessionCleanup_def world_init_def
        MAX_RECOVERY_ATTEMPTS_def)
  have e3: "rr_success (fst (executeStrategy S3 (env_at T0) w))
            \<and> effects (snd (executeStrategy S3 (env_at T0) w))
               = effects w @ (if closeAllSessionsFn w then [CloseAllSessions] else [])
                   @ [ScheduleRelaunch]" for w
    by (simp add: executeS3_def closeAllSessions_def recoverySuccess_def env_at_def Let_def)
  have e4: "rr_success (fst (executeStrategy S4 (env_at T0) w))
            \<and> effects (snd (executeStrategy S4 (env_at T0) w))
               = effects w @ (if closeAllSessionsFn w then [CloseAllSessions] else [])
                   @ [CleanupOrphans, ScheduleRelaunch]" for w
    by (simp add: executeS4_def closeAllSessions_def cleanupOrphans_def recoverySuccess_def
        env_at_def Let_def)
  have f: "closeAllSessionsFn ready_world" "effects ready_world = []"
    by (simp_all add: ready_world_def injectSessionCleanup_def world_init_def)
  from consent_gate [of S3 "env_at T0" ready_world] consent_gate [of S4 "env_at T0" ready_world]
    r3 r4 t e3 e4 f
  show ?thesis by (simp add: env_at_def)
qed

text \<open>
  C2 as stated fails: after three recoveries within the cooldown, the consented S3 call
  is refused by the rate limiter and no part of its body runs.
\<close>

theorem consent_gate_counterexample:
  "executeRecovery S3 True (env_at (T0 + 3000)) (snd (executeRecoveries three_runs ready_world))
   = (failed S3 ''Recovery rate limit exceeded'' (T0 + 3000),
      (snd (executeRecoveries three_runs ready_world))\<lparr>recentRecoveryAttempts := 4\<rparr>)
   \<and> effects (snd (executeRecoveries three_runs ready_world)) = []"
  using three_runs_result
  by (simp add: executeRecovery_def Let_def getStrategy_def env_at_def
      RECOVERY_COOLDOWN_MS_def MAX_RECOVERY_ATTEMPTS_def)

section \<open>Verification: health probes\<close>

lemma scanPorts_lists:
  "scanPorts bind ports (c, oc, av)
   = (c @ ports, oc @ filter (\<lambda>p. \<not> isPortAvailable (bind p)) ports,
      av @ filter (\<lambda>p. isPortAvailable (bind p)) ports)"
  by (induction ports arbitrary: c oc av) simp_all

lemma runPortProbe_healthy:
  "healthy (runPortProbe bind now)
     = list_ex (\<lambda>p. bind p = ListeningEvent) [HTTP_SERVER_PORT_START..HTTP_SERVER_PORT_END]
   \<and> severity (runPortProbe bind now)
     = (if healthy (runPortProbe bind now) then Info else Warning)"
proof -
  have "isPortAvailable (bind p) = (bind p = ListeningEvent)" for p
    by (cases "bind p") (simp_all add: isPortAvailable_def)
  then show ?thesis
    by (simp add: runPortProbe_def scanPorts_lists Let_def list_ex_iff filter_empty_conv)
qed

text \<open>
  C8 (amended). An internal error in the disk probe (a failing \<^verbatim>\<open>statfsSync\<close>) or in the
  process probe (a failing \<^verbatim>\<open>cleanupOrphans\<close>) yields \<^verbatim>\<open>healthy: true\<close> with severity
  \<^verbatim>\<open>warning\<close>. The port probe counts a port whose bind fails as occupied: it is healthy
  exactly when some port of the range can be bound, with severity \<^verbatim>\<open>info\<close> then and
  \<^verbatim>\<open>warning\<close> otherwise, so it reports \<^verbatim>\<open>healthy: false\<close> when every bind fails. The config
  probe answers an internal error (and a parse error) with \<^verbatim>\<open>healthy: false\<close> and
  severity \<^verbatim>\<open>critical\<close>; the service checks answer a failed or timed-out request with
  \<^verbatim>\<open>healthy: false\<close>, severity \<^verbatim>\<open>critical\<close> for the OpenAI router and \<^verbatim>\<open>warning\<close> for the
  HTTP server.
\<close>

theorem probes_on_internal_error:
  "healthy (runDiskProbe formatBytes percent StatfsThrows now)
   \<and> severity (runDiskProbe formatBytes percent StatfsThrows now) = Warning
   \<and> healthy (fst (runProcessProbe (Inl err) now s))
   \<and> severity (fst (runProcessProbe (Inl err) now s)) = Warning
   \<and> healthy (runPortProbe bind now)
       = list_ex (\<lambda>p. bind p = ListeningEvent) [HTTP_SERVER_PORT_START..HTTP_SERVER_PORT_END]
   \<and> severity (runPortProbe bind now)
       = (if healthy (runPortProbe bind now) then Info else Warning)
   \<and> \<not> healthy (runConfigProbe (ConfigParsed None) now)
   \<and> severity (runConfigProbe (ConfigParsed None) now) = Critical
   \<and> \<not> healthy (runConfigProbe (ConfigInvalid err) now)
   \<and> severity (runConfigProbe (ConfigInvalid err) now) = Critical
   \<and> \<not> healthy (checkOpenAIRouter (FetchError err) startTime endTime now)
   \<and> severity (checkOpenAIRouter (FetchError err) startTime endTime now) = Critical
   \<and> \<not> healthy (checkOpenAIRouter AbortError startTime endTime now)
   \<and> severity (checkOpenAIRouter AbortError startTime endTime now) = Critical
   \<and> \<not> healthy (checkHttpServer (FetchError err) startTime endTime now)
   \<and> severity (checkHttpServer (FetchError err) startTime endTime now) = Warning
   \<and> \<not> healthy (checkHttpServer AbortError startTime endTime now)
   \<and> severity (checkHttpServer AbortError startTime endTime now) = Warning"
proof -
  have disk: "healthy (runDiskProbe formatBytes percent StatfsThrows now)
     \<and> severity (runDiskProbe formatBytes percent StatfsThrows now) = Warning"
    by (simp add: runDiskProbe_def diskResult_def getDiskSpace_def)
  have process: "healthy (fst (runProcessProbe (Inl err) now s))
     \<and> severity (fst (runProcessProbe (Inl err) now s)) = Warning"
    by (simp add: runProcessProbe_def split: prod.splits)
  note port = runPortProbe_healthy [of bind now]
  have config: "\<not> healthy (runConfigProbe (ConfigParsed None) now)
     \<and> severity (runConfigProbe (ConfigParsed None) now) = Critical
     \<and> \<not> healthy (runConfigProbe (ConfigInvalid err) now)
     \<and> severity (runConfigProbe (ConfigInvalid err) now) = Critical"
    by (simp add: runConfigProbe_def configResult_def Let_def)
  have service: "\<not> healthy (checkOpenAIRouter (FetchError err) startTime endTime now)
     \<and> severity (checkOpenAIRouter (FetchError err) startTime endTime now) = Critical
     \<and> \<not> healthy (checkOpenAIRouter AbortError startTime endTime now)
     \<and> severity (checkOpenAIRouter AbortError startTime endTime now) = Critical
     \<and> \<not> healthy (checkHttpServer (FetchError err) startTime endTime now)
     \<and> severity (checkHttpServer (FetchError err) startTime endTime now) = Warning
     \<and> \<not> healthy (checkHttpServer AbortError startTime endTime now)
     \<and> severity (checkHttpServer AbortError startTime endTime now) = Warning"
    by (simp add: checkOpenAIRouter_def checkHttpServer_def checkHttpEndpoint_def Let_def)
  from disk port process config service show ?thesis by blast
qed

lemma port_range: "[HTTP_SERVER_PORT_START..HTTP_SERVER_PORT_END]
  = [3847, 3848, 3849, 3850, 3851, 3852, 3853, 3854, 3855, 3856,
     3857, 3858, 3859, 3860, 3861, 3862, 3863, 3864, 3865, 3866]"
  by (simp add: HTTP_SERVER_PORT_START_def HTTP_SERVER_PORT_END_def upto_rec1)

theorem probes_on_internal_error_witness:
  "healthy (runPortProbe all_ports_fail 7) = False
   \<and> severity (runPortProbe all_ports_fail 7) = Warning
   \<and> healthy (runPortProbe one_port_fails 7) = True
   \<and> severity (runPortProbe one_port_fails 7) = Info"
  using probes_on_internal_error [of _ _ 7 _ _ all_ports_fail]
    probes_on_internal_error [of _ _ 7 _ _ one_port_fails]
  by (simp add: port_range all_ports_fail_def one_port_fails_def)

text \<open>
  C8 as stated fails for the config probe (a config file holding \<^verbatim>\<open>null\<close>), for the
  service probe (a refused connection) and for the port probe (every bind fails): each
  reports an unhealthy result.
\<close>

theorem probes_fail_open_counterexample:
  "healthy (runConfigProbe (ConfigParsed None) 7) = False
   \<and> severity (runConfigProbe (ConfigParsed None) 7) = Critical
   \<and> healthy (checkOpenAIRouter (FetchError ''connect ECONNREFUSED 127.0.0.1:3900'') 0 4 7) = False
   \<and> severity (checkOpenAIRouter (FetchError ''connect ECONNREFUSED 127.0.0.1:3900'') 0 4 7)
       = Critical
   \<and> healthy (runPortProbe all_ports_fail 7) = False"
proof -
  have a: "healthy (runConfigProbe (ConfigParsed None) 7) = False
     \<and> severity (runConfigProbe (ConfigParsed None) 7) = Critical
     \<and> healthy (checkOpenAIRouter (FetchError ''connect ECONNREFUSED 127.0.0.1:3900'') 0 4 7) = False
     \<and> severity (checkOpenAIRouter (FetchError ''connect ECONNREFUSED 127.0.0.1:3900'') 0 4 7)
         = Critical"
    by (simp add: runConfigProbe_def configResult_def Let_def checkOpenAIRouter_def
        checkHttpEndpoint_def)
  have b: "healthy (runPortProbe all_ports_fail 7) = False"
    using runPortProbe_healthy [of all_ports_fail 7]
    by (simp add: port_range all_ports_fail_def)
  from a b show ?thesis by blast
qed

end
